theory Spec2Isabelle
  imports Complex_Main "HOL-Library.Product_Lexorder"
begin

section \<open>Errors raised by the Python code\<close>

text \<open>
  Every way in which the modelled functions stop without a result is a value of
  \<open>error\<close>: \<open>UnsupportedMeshFormat\<close> is the \<^verbatim>\<open>sys.exit\<close> of \<^verbatim>\<open>mesh_edges\<close>,
  the others are the exceptions the Python interpreter and numpy raise themselves.
\<close>

datatype error = UnsupportedMeshFormat | TypeError | ValueError | IndexError | NameError

section \<open>Topology extractor: \<^verbatim>\<open>brainstat/mesh/utils.py\<close>\<close>

type_synonym edge = "int \<times> int"
type_synonym triangle = "int \<times> int \<times> int"

text \<open>
  A row of an \<open>e \<times> 2\<close> array is a pair, a row of a \<open>t \<times> 3\<close> array a triple. An entry is
  given by its integer value.

  A numpy integer array has a fixed-width element type, signed or unsigned (\<open>int64\<close>,
  \<open>int32\<close>, \<open>uint8\<close>, \<dots>), and its arithmetic wraps around: \<open>wrap dt x\<close> is the value of
  that type congruent to \<open>x\<close> modulo \<open>2 ^ w\<close>.
\<close>

datatype dtype = Signed nat | Unsigned nat

fun wrap :: "dtype \<Rightarrow> int \<Rightarrow> int" where
  "wrap (Unsigned w) x = x mod 2 ^ w"
| "wrap (Signed w) x = (x + 2 ^ (w - 1)) mod 2 ^ w - 2 ^ (w - 1)"

fun bits :: "dtype \<Rightarrow> nat" where
  "bits (Unsigned w) = w"
| "bits (Signed w) = w"

fun lowest :: "dtype \<Rightarrow> int" where
  "lowest (Unsigned w) = 0"
| "lowest (Signed w) = - (2 ^ (w - 1))"

definition in_dtype :: "dtype \<Rightarrow> int \<Rightarrow> bool" where
  "in_dtype dt x = (lowest dt \<le> x \<and> x < lowest dt + 2 ^ bits dt)"

subsection \<open>Triangles\<close>

text \<open>\<^verbatim>\<open>np.sort(tri, axis=1)\<close> sorts every row on its own.\<close>

fun sort_row :: "triangle \<Rightarrow> triangle" where
  "sort_row (a, b, c) = (let xs = sort [a, b, c] in (xs ! 0, xs ! 1, xs ! 2))"

text \<open>
  \<^verbatim>\<open>np.unique(rows, axis=0)\<close>: the distinct rows in ascending lexicographic order;
  \<^verbatim>\<open>np.unique(Y)\<close> on a flattened array is the same on single values.
\<close>

definition np_unique :: "'a::linorder list \<Rightarrow> 'a list" where
  "np_unique xs = sort (remdups xs)"

text \<open>
  The triangle array \<^verbatim>\<open>surf["tri"]\<close> is given by its element type and its rows. An array
  holds values of its type only: an entry written \<open>x\<close> stands for \<open>wrap dt x\<close>, which is \<open>x\<close>
  itself whenever \<open>x\<close> is a value of the type.
\<close>

definition stored :: "dtype \<Rightarrow> triangle list \<Rightarrow> triangle list" where
  "stored dt tri = map (\<lambda>(a, b, c). (wrap dt a, wrap dt b, wrap dt c)) tri"

text \<open>
  Lines 48 to 55. The final \<^verbatim>\<open>edg = edg - 1\<close> is a subtraction in the element type of the
  array.
\<close>

definition tri_edges :: "dtype \<Rightarrow> triangle list \<Rightarrow> edge list" where
  "tri_edges dt surf_tri =
     (let tri = map sort_row (stored dt surf_tri);
          edg = np_unique (map (\<lambda>(a, b, c). (a, b)) tri @ map (\<lambda>(a, b, c). (a, c)) tri
                           @ map (\<lambda>(a, b, c). (b, c)) tri)
      in map (\<lambda>(a, b). (wrap dt (a - 1), wrap dt (b - 1))) edg)"

subsection \<open>Masking and renumbering\<close>

text \<open>
  \<^verbatim>\<open>Y[Y == val[i]] = i\<close> overwrites, in place, every entry that currently equals
  \<^verbatim>\<open>val[i]\<close>; the loop of \<^verbatim>\<open>_make_contiguous\<close> does so for \<open>i = 0, 1, \<dots>\<close> in turn, each
  step reading the array the previous step left. The value written is below the number
  of distinct entries; when the entries are non-negative it does not exceed the entry it
  replaces, so it is a value of the element type of the array.
\<close>

definition replace_val :: "int \<Rightarrow> int \<Rightarrow> edge list \<Rightarrow> edge list" where
  "replace_val old new Y =
     map (\<lambda>(a, b). (if a = old then new else a, if b = old then new else b)) Y"

definition flatten_edges :: "edge list \<Rightarrow> int list" where
  "flatten_edges Y = concat (map (\<lambda>(a, b). [a, b]) Y)"

definition make_contiguous :: "edge list \<Rightarrow> edge list" where
  "make_contiguous Y =
     (let val = np_unique (flatten_edges Y)
      in fold (\<lambda>i Y. replace_val (val ! i) (int i) Y) [0..<length val] Y)"

text \<open>
  \<^verbatim>\<open>_mask_edges\<close>: \<^verbatim>\<open>np.where(~mask)\<close> lists the positions whose mask entry is false; an
  edge is removed when one of its two entries equals one of these positions. The boolean
  selection \<^verbatim>\<open>edges[idx, :]\<close> is a copy, so the caller's array is not written.
\<close>

definition mask_edges :: "edge list \<Rightarrow> bool list \<Rightarrow> edge list \<times> bool list" where
  "mask_edges edges msk =
     (let missing_edges = [int i. i \<leftarrow> [0..<length msk], \<not> msk ! i];
          remove_edges = map (\<lambda>(a, b). (a \<in> set missing_edges, b \<in> set missing_edges)) edges;
          idx = map (\<lambda>(ra, rb). \<not> (ra \<or> rb)) remove_edges;
          edges' = map fst (filter snd (zip edges idx))
      in (make_contiguous edges', idx))"

subsection \<open>Lattices\<close>

text \<open>
  A lattice is a 2-D or 3-D array of occupancy flags: its extents and its entries
  (\<open>lat[i, j, k]\<close>, 0-based, read only inside the extents).
\<close>

datatype lattice = Lat2 nat nat "nat \<Rightarrow> nat \<Rightarrow> bool" | Lat3 nat nat nat "nat \<Rightarrow> nat \<Rightarrow> nat \<Rightarrow> bool"

text \<open>\<^verbatim>\<open>np.expand_dims(lat, axis=2)\<close> for a 2-D lattice; then \<^verbatim>\<open>I, J, K = np.shape(lat)\<close>.\<close>

fun lat_dims :: "lattice \<Rightarrow> nat \<times> nat \<times> nat" where
  "lat_dims (Lat2 I J occ) = (I, J, 1)"
| "lat_dims (Lat3 I J K occ) = (I, J, K)"

fun lat_at :: "lattice \<Rightarrow> nat \<Rightarrow> nat \<Rightarrow> nat \<Rightarrow> bool" where
  "lat_at (Lat2 I J occ) i j k = occ i j"
| "lat_at (Lat3 I J K occ) i j k = occ i j k"

text \<open>\<^verbatim>\<open>lat.T.flatten()\<close>: position \<open>i + I*j + I*J*k\<close> holds \<open>lat[i, j, k]\<close>.\<close>

definition lat_flat :: "lattice \<Rightarrow> bool list" where
  "lat_flat lat = (case lat_dims lat of (I, J, K) \<Rightarrow>
     map (\<lambda>p. lat_at lat (p mod I) ((p div I) mod J) (p div (I * J))) [0..<I * J * K])"

text \<open>
  \<^verbatim>\<open>i, j = np.meshgrid(a, b)\<close>, transposed and flattened in column-major order: at
  position \<open>p\<close> of the \<open>I*J\<close> positions of a slice, \<open>i = p mod I + 1\<close> and \<open>j = p div I + 1\<close>.
  \<open>grid_where\<close> is \<^verbatim>\<open>np.where(cond)[0]\<close> over these positions.
\<close>

definition grid_where :: "nat \<Rightarrow> nat \<Rightarrow> (int \<Rightarrow> int \<Rightarrow> bool) \<Rightarrow> int list" where
  "grid_where I J cond =
     [int p. p \<leftarrow> [0..<I * J], cond (int (p mod I) + 1) (int (p div I) + 1)]"

definition c1 :: "nat \<Rightarrow> nat \<Rightarrow> int \<Rightarrow> int list" where
  "c1 I J f = grid_where I J (\<lambda>i j. (i + j) mod 2 = f \<and> i < int I \<and> j < int J)"
definition c2 :: "nat \<Rightarrow> nat \<Rightarrow> int \<Rightarrow> int list" where
  "c2 I J f = grid_where I J (\<lambda>i j. (i + j) mod 2 = f \<and> i > 1 \<and> j < int J)"
definition c11 :: "nat \<Rightarrow> nat \<Rightarrow> int \<Rightarrow> int list" where
  "c11 I J f = grid_where I J (\<lambda>i j. (i + j) mod 2 = f \<and> i = int I \<and> j < int J)"
definition c21 :: "nat \<Rightarrow> nat \<Rightarrow> int \<Rightarrow> int list" where
  "c21 I J f = grid_where I J (\<lambda>i j. (i + j) mod 2 = f \<and> i = int I \<and> j > 1)"
definition c12 :: "nat \<Rightarrow> nat \<Rightarrow> int \<Rightarrow> int list" where
  "c12 I J f = grid_where I J (\<lambda>i j. (i + j) mod 2 = f \<and> i < int I \<and> j = int J)"
definition c22 :: "nat \<Rightarrow> nat \<Rightarrow> int \<Rightarrow> int list" where
  "c22 I J f = grid_where I J (\<lambda>i j. (i + j) mod 2 = f \<and> i > 1 \<and> j = int J)"

text \<open>
  \<^verbatim>\<open>np.block([[r1...], [r2...]]).T + 1\<close>: the two rows are concatenations of index
  vectors of equal lengths; transposing pairs them up, and 1 is added to every entry.
\<close>

definition block_T :: "int list list \<Rightarrow> int list list \<Rightarrow> edge list" where
  "block_T r1 r2 = map (\<lambda>(a, b). (a + 1, b + 1)) (zip (concat r1) (concat r2))"

definition shift :: "int \<Rightarrow> int list \<Rightarrow> int list" where
  "shift d c = map (\<lambda>x. x + d) c"

definition edg0 :: "nat \<Rightarrow> nat \<Rightarrow> int \<Rightarrow> edge list" where
  "edg0 I J f =
     block_T
       [c1 I J f, c1 I J f, c1 I J f, shift (- 1) (c2 I J f), shift (- 1) (c2 I J f), c2 I J f,
        c11 I J f, shift (- int I) (c21 I J f), c12 I J f, shift (- 1) (c22 I J f)]
       [shift 1 (c1 I J f), shift (int I) (c1 I J f), shift (1 + int I) (c1 I J f), c2 I J f,
        shift (- 1 + int I) (c2 I J f), shift (- 1 + int I) (c2 I J f),
        shift (int I) (c11 I J f), c21 I J f, shift 1 (c12 I J f), c22 I J f]"

definition edg1 :: "nat \<Rightarrow> nat \<Rightarrow> int \<Rightarrow> edge list" where
  "edg1 I J f = (let IJ = int (I * J) in
     block_T
       [c1 I J f, c1 I J f, c1 I J f, c11 I J f, c11 I J f, c12 I J f, c12 I J f]
       [shift IJ (c1 I J f), shift (1 + IJ) (c1 I J f), shift (int I + IJ) (c1 I J f),
        shift IJ (c11 I J f), shift (int I + IJ) (c11 I J f), shift IJ (c12 I J f),
        shift (1 + IJ) (c12 I J f)])"

definition edg2 :: "nat \<Rightarrow> nat \<Rightarrow> int \<Rightarrow> edge list" where
  "edg2 I J f = (let IJ = int (I * J) in
     block_T
       [shift (- 1) (c2 I J f), c2 I J f, shift (- 1 + int I) (c2 I J f),
        shift (- int I) (c21 I J f), c21 I J f, shift (- 1) (c22 I J f), c22 I J f]
       [shift (- 1 + IJ) (c2 I J f), shift (- 1 + IJ) (c2 I J f), shift (- 1 + IJ) (c2 I J f),
        shift (- int I + IJ) (c21 I J f), shift (- int I + IJ) (c21 I J f),
        shift (- 1 + IJ) (c22 I J f), shift (- 1 + IJ) (c22 I J f)])"

definition n1 :: "nat \<Rightarrow> nat \<Rightarrow> nat" where
  "n1 I J = (I - 1) * (J - 1) * 6 + (I - 1) * 3 + (J - 1) * 3 + 1"
definition n2 :: "nat \<Rightarrow> nat \<Rightarrow> nat" where
  "n2 I J = (I - 1) * (J - 1) * 3 + (I - 1) + (J - 1)"

text \<open>
  Modelled from the spec: \<^verbatim>\<open>colon\<close> of \<^verbatim>\<open>brainstat/stats/utils.py\<close> is not among the
  sources. The spec tiles the templates "across all \<open>K - 1\<close> slice boundaries, alternating
  template assignment by parity", so \<open>colon start stop step\<close> is the range
  \<open>start, start + step, \<dots>\<close> up to and including \<open>stop\<close>.
\<close>

definition colon :: "nat \<Rightarrow> nat \<Rightarrow> nat \<Rightarrow> nat list" where
  "colon start stop step = [k. k \<leftarrow> [start..<Suc stop], (k - start) mod step = 0]"

text \<open>
  \<^verbatim>\<open>edg[off + np.arange(0, n), :] = rows\<close>. numpy needs the \<open>n\<close> addressed rows to exist
  and \<open>rows\<close> to have the shape \<open>(n, 2)\<close>.
\<close>

definition assign_rows :: "nat \<Rightarrow> nat \<Rightarrow> edge list \<Rightarrow> edge list \<Rightarrow> error + edge list" where
  "assign_rows off n rows edg =
     (if length edg < off + n then Inl IndexError
      else if length rows \<noteq> n then Inl ValueError
      else Inr (take off edg @ rows @ drop (off + n) edg))"

definition add_both :: "int \<Rightarrow> edge list \<Rightarrow> edge list" where
  "add_both d rows = map (\<lambda>(a, b). (a + d, b + d)) rows"

fun fold_err :: "('a \<Rightarrow> 's \<Rightarrow> error + 's) \<Rightarrow> 'a list \<Rightarrow> 's \<Rightarrow> error + 's" where
  "fold_err g [] s = Inr s"
| "fold_err g (x # xs) s = (case g x s of Inl e \<Rightarrow> Inl e | Inr s' \<Rightarrow> fold_err g xs s')"

text \<open>One pass of the loop \<^verbatim>\<open>for f in range(0, 2)\<close> over the template array.\<close>

definition lat_pass :: "nat \<Rightarrow> nat \<Rightarrow> nat \<Rightarrow> nat \<Rightarrow> edge list \<Rightarrow> error + edge list" where
  "lat_pass I J K f edg =
     (let IJ = int (I * J);
          corner = [(IJ, 2 * IJ)];
          blk = (if f \<noteq> 0 then edg0 I J (int f) @ edg2 I J (int f) @ edg1 I J (int f) @ corner
                 else edg0 I J (int f) @ edg1 I J (int f) @ edg2 I J (int f) @ corner);
          ks = (if f \<noteq> 0 then colon 2 (K - 1) 2 else colon 1 (K - 1) 2)
      in case fold_err (\<lambda>k. assign_rows ((k - 1) * n1 I J) (n1 I J)
                               (add_both ((int k - 1) * IJ) blk)) ks edg of
           Inl e \<Rightarrow> Inl e
         | Inr edg' \<Rightarrow>
             if (K + 1) mod 2 = f then
               (if length (edg0 I J (int f)) < n2 I J then Inl IndexError
                else assign_rows ((K - 1) * n1 I J) (n2 I J)
                       (add_both ((int K - 1) * IJ) (take (n2 I J) (edg0 I J (int f)))) edg')
             else Inr edg')"

text \<open>numpy indexing of a 1-D array: a negative index counts from the end.\<close>

definition np_in_bounds :: "'a list \<Rightarrow> int \<Rightarrow> bool" where
  "np_in_bounds xs i = (- int (length xs) \<le> i \<and> i < int (length xs))"

definition np_get :: "'a list \<Rightarrow> int \<Rightarrow> 'a" where
  "np_get xs i = xs ! nat (if i < 0 then int (length xs) + i else i)"

text \<open>\<^verbatim>\<open>np.cumsum(flat) * flat\<close>: the running count of occupied voxels, 0 where unoccupied.\<close>

definition vid :: "bool list \<Rightarrow> int list" where
  "vid flat = map (\<lambda>p. if flat ! p then int (length (filter id (take (Suc p) flat))) else 0)
                  [0..<length flat]"

text \<open>
  The lattice branch of \<^verbatim>\<open>mesh_edges\<close>. An array with an extent of 0 never gets through:
  \<^verbatim>\<open>np.zeros\<close> refuses the negative row count (\<open>ValueError\<close>), or an empty array is
  indexed (\<open>IndexError\<close>).
\<close>

definition lat_edges :: "lattice \<Rightarrow> error + edge list" where
  "lat_edges lat = (case lat_dims lat of (I, J, K) \<Rightarrow>
     if I = 0 \<or> J = 0 \<or> K = 0 then
       (if (K = 0 \<and> I \<noteq> 0 \<and> J \<noteq> 0) \<or> (K \<noteq> 0 \<and> (I = 0) \<noteq> (J = 0)) then Inl ValueError
        else Inl IndexError)
     else
       case fold_err (lat_pass I J K) [0, 1] (replicate ((K - 1) * n1 I J + n2 I J) (0, 0)) of
         Inl e \<Rightarrow> Inl e
       | Inr edg \<Rightarrow>
           let flat = lat_flat lat in
           if \<not> list_all (\<lambda>(a, b). np_in_bounds flat (a - 1) \<and> np_in_bounds flat (b - 1)) edg
           then Inl IndexError
           else
             let all_idx = map (\<lambda>(a, b). np_get flat (a - 1) \<and> np_get flat (b - 1)) edg;
                 kept = map fst (filter snd (zip edg all_idx));
                 edg' = map (\<lambda>(a, b). (np_get (vid flat) (a - 1), np_get (vid flat) (b - 1))) kept
             in Inr (map (\<lambda>(a, b). (a - 1, b - 1)) edg'))"

subsection \<open>The dispatch of \<^verbatim>\<open>mesh_edges\<close>\<close>

text \<open>
  The mesh argument: an \<open>SLM\<close> object with its attributes \<open>tri\<close>, \<open>lat\<close> and \<open>surf\<close>
  (\<open>None\<close> when unset), a \<open>BSPolyData\<close> surface, of which only the edges that BrainSpace's
  \<^verbatim>\<open>get_edges\<close> returns matter here, or a dictionary that may have the keys \<open>tri\<close> and \<open>lat\<close>.
\<close>

datatype surf =
    SLM "(dtype \<times> triangle list) option" "lattice option" "surf option"
  | BSPolyData "edge list"
  | Dict "(dtype \<times> triangle list) option" "lattice option"

text \<open>The chain \<^verbatim>\<open>elif "tri" in surf: ... elif "lat" in surf: ... else: sys.exit(...)\<close>.\<close>

definition dict_edges ::
  "(dtype \<times> triangle list) option \<Rightarrow> lattice option \<Rightarrow> error + edge list" where
  "dict_edges tri lat =
     (case tri of Some (dt, t) \<Rightarrow> Inr (tri_edges dt t)
      | None \<Rightarrow> (case lat of Some l \<Rightarrow> lat_edges l | None \<Rightarrow> Inl UnsupportedMeshFormat))"

text \<open>\<^verbatim>\<open>if mask is not None: edg, _ = _mask_edges(edg, mask)\<close>.\<close>

definition apply_mask :: "error + edge list \<Rightarrow> bool list option \<Rightarrow> error + edge list" where
  "apply_mask r msk =
     (case r of Inl e \<Rightarrow> Inl e
      | Inr edg \<Rightarrow> (case msk of None \<Rightarrow> Inr edg | Some m \<Rightarrow> Inr (fst (mask_edges edg m))))"

text \<open>
  An \<open>SLM\<close> object is unwrapped to a dictionary, or its \<open>surf\<close> attribute is handed to a
  recursive call (without the mask). When all three attributes are \<open>None\<close> the code builds
  a \<open>ValueError\<close> but does not raise it, and execution goes on to \<^verbatim>\<open>"tri" in surf\<close> with the
  \<open>SLM\<close> object itself.

  Modelled from the spec: the class \<open>SLM\<close> (\<^verbatim>\<open>brainstat/stats/SLM.py\<close>) is not among the
  sources. The spec describes the fitted model as a record of fields, not a container,
  so the membership test on it raises \<open>TypeError\<close>.
\<close>

fun mesh_edges :: "surf \<Rightarrow> bool list option \<Rightarrow> error + edge list" where
  "mesh_edges (SLM (Some t) lat sf) msk = apply_mask (dict_edges (Some t) None) msk"
| "mesh_edges (SLM None (Some l) sf) msk = apply_mask (dict_edges None (Some l)) msk"
| "mesh_edges (SLM None None (Some s)) msk = mesh_edges s None"
| "mesh_edges (SLM None None None) msk = Inl TypeError"
| "mesh_edges (BSPolyData e) msk = apply_mask (Inr e) msk"
| "mesh_edges (Dict tri lat) msk = apply_mask (dict_edges tri lat) msk"

subsection \<open>Notions used to state the properties of the topology extractor\<close>

text \<open>
  The three vertex pairs of a triangle, the canonical (ascending) form of a pair, and the
  geometric edges of a triangle list: the canonical forms of the sides of its triangles.
\<close>

definition triangle_sides :: "triangle \<Rightarrow> edge set" where
  "triangle_sides t = (case t of (a, b, c) \<Rightarrow> {(a, b), (a, c), (b, c)})"

definition canonical :: "edge \<Rightarrow> edge" where
  "canonical e = (case e of (u, v) \<Rightarrow> (min u v, max u v))"

definition geometric_edges :: "triangle list \<Rightarrow> edge set" where
  "geometric_edges tri = canonical ` (\<Union>t \<in> set tri. triangle_sides t)"

text \<open>The vertex indices that occur in a triangle list and in an edge list.\<close>

definition tri_verts :: "triangle list \<Rightarrow> int set" where
  "tri_verts tri = (\<Union>(a, b, c) \<in> set tri. {a, b, c})"

definition edge_verts :: "edge list \<Rightarrow> int set" where
  "edge_verts es = (\<Union>(a, b) \<in> set es. {a, b})"


text \<open>
  For the mask: the number of true entries, whether an edge has both endpoints at true
  entries, the rank of an index among the indices of a set (the number of smaller
  ones), and the renumbering of an edge by rank. \<open>valid_edges edges n\<close> says that every
  index of \<open>edges\<close> is a position of a mask of length \<open>n\<close>.
\<close>

definition count_true :: "bool list \<Rightarrow> nat" where
  "count_true msk = length (filter id msk)"

definition keeps :: "bool list \<Rightarrow> edge \<Rightarrow> bool" where
  "keeps msk e = (case e of (a, b) \<Rightarrow> msk ! nat a \<and> msk ! nat b)"

definition rank_in :: "int set \<Rightarrow> int \<Rightarrow> int" where
  "rank_in V x = int (card {v \<in> V. v < x})"

definition renumber :: "int set \<Rightarrow> edge \<Rightarrow> edge" where
  "renumber V e = (case e of (a, b) \<Rightarrow> (rank_in V a, rank_in V b))"

definition valid_edges :: "edge list \<Rightarrow> nat \<Rightarrow> bool" where
  "valid_edges edges n = list_all (\<lambda>(a, b). 0 \<le> a \<and> a < int n \<and> 0 \<le> b \<and> b < int n) edges"

definition max_index_below :: "edge list \<Rightarrow> nat \<Rightarrow> bool" where
  "max_index_below edges n = list_all (\<lambda>(a, b). a < int n \<and> b < int n) edges"

text \<open>
  The renumbering after \<open>i\<close> rounds of the loop of \<^verbatim>\<open>_make_contiguous\<close>: the \<open>i\<close> smallest
  values are replaced by their ranks, the others are still in place.
\<close>

definition partial_rank :: "int list \<Rightarrow> nat \<Rightarrow> int \<Rightarrow> int" where
  "partial_rank val i x = (if x \<in> set (take i val) then rank_in (set val) x else x)"

definition surviving_verts :: "edge list \<Rightarrow> bool list \<Rightarrow> int set" where
  "surviving_verts edges msk = edge_verts (filter (keeps msk) edges)"

section \<open>Model fitter: \<^verbatim>\<open>surfstat/python/SurfStatLinMod.py\<close>\<close>

text \<open>
  Array entries are real numbers: the model follows the shapes, the axes and the data flow
  of the numpy code, not the rounding of its floating-point arithmetic. A 2-D array is
  the list of its rows, a 3-D array the list of its 2-D slices along the first axis; all
  arrays are rectangular and have no extent 0.
\<close>

type_synonym mat = "real list list"

definition nrows :: "mat \<Rightarrow> nat" where
  "nrows A = length A"

definition ncols :: "mat \<Rightarrow> nat" where
  "ncols A = (case A of [] \<Rightarrow> 0 | r # _ \<Rightarrow> length r)"

definition rectangular :: "mat \<Rightarrow> bool" where
  "rectangular A = list_all (\<lambda>r. length r = ncols A) A"

definition column :: "mat \<Rightarrow> nat \<Rightarrow> real list" where
  "column A j = map (\<lambda>r. r ! j) A"

definition inner :: "real list \<Rightarrow> real list \<Rightarrow> real" where
  "inner xs ys = sum_list (map (\<lambda>(x, y). x * y) (zip xs ys))"

text \<open>The matrix product, and \<^verbatim>\<open>np.dot\<close> on 2-D arrays, which first checks the shapes.\<close>

definition matmul :: "mat \<Rightarrow> mat \<Rightarrow> mat" where
  "matmul A B = map (\<lambda>r. map (\<lambda>j. inner r (column B j)) [0..<ncols B]) A"

definition np_dot :: "mat \<Rightarrow> mat \<Rightarrow> error + mat" where
  "np_dot A B = (if ncols A \<noteq> nrows B then Inl ValueError else Inr (matmul A B))"

text \<open>
  Broadcasting of two 2-D shapes: along each axis the extents are equal or one of them
  is 1, and an axis of extent 1 is read at index 0.
\<close>

definition bc_dim :: "nat \<Rightarrow> nat \<Rightarrow> nat option" where
  "bc_dim a b = (if a = b then Some a else if a = 1 then Some b else if b = 1 then Some a else None)"

definition bc_at :: "mat \<Rightarrow> nat \<Rightarrow> nat \<Rightarrow> real" where
  "bc_at A i j = A ! (if nrows A = 1 then 0 else i) ! (if ncols A = 1 then 0 else j)"

definition np_binop :: "(real \<Rightarrow> real \<Rightarrow> real) \<Rightarrow> mat \<Rightarrow> mat \<Rightarrow> error + mat" where
  "np_binop f A B =
     (case (bc_dim (nrows A) (nrows B), bc_dim (ncols A) (ncols B)) of
        (Some r, Some c) \<Rightarrow> Inr (map (\<lambda>i. map (\<lambda>j. f (bc_at A i j) (bc_at B i j)) [0..<c]) [0..<r])
      | _ \<Rightarrow> Inl ValueError)"

text \<open>
  \<^verbatim>\<open>target[...] = src\<close> for a target selection of shape \<open>(r, c)\<close>: the source must broadcast
  to that shape; the value stored is the broadcast source.
\<close>

definition np_assign :: "nat \<Rightarrow> nat \<Rightarrow> mat \<Rightarrow> error + mat" where
  "np_assign r c src =
     (if (nrows src = r \<or> nrows src = 1) \<and> (ncols src = c \<or> ncols src = 1)
      then Inr (map (\<lambda>i. map (\<lambda>j. bc_at src i j) [0..<c]) [0..<r])
      else Inl ValueError)"

definition ones :: "nat \<Rightarrow> nat \<Rightarrow> mat" where
  "ones r c = replicate r (replicate c 1)"

definition square :: "mat \<Rightarrow> mat" where
  "square A = map (map (\<lambda>x. x * x)) A"

text \<open>\<^verbatim>\<open>np.sum(A, axis=0)\<close> sums down the columns, \<^verbatim>\<open>np.sum(A, axis=1)\<close> along the rows.\<close>

definition sum_axis0 :: "mat \<Rightarrow> real list" where
  "sum_axis0 A = map (\<lambda>j. sum_list (column A j)) [0..<ncols A]"

definition sum_axis1 :: "mat \<Rightarrow> real list" where
  "sum_axis1 A = map sum_list A"

definition mean :: "mat \<Rightarrow> real" where
  "mean A = sum_list (concat A) / real (length (concat A))"

text \<open>\<^verbatim>\<open>np.spacing(1)\<close>, the machine epsilon of double precision.\<close>

definition spacing1 :: real where
  "spacing1 = 1 / 2 ^ 52"

definition bindE :: "error + 'a \<Rightarrow> ('a \<Rightarrow> error + 'b) \<Rightarrow> error + 'b" where
  "bindE m g = (case m of Inl e \<Rightarrow> Inl e | Inr x \<Rightarrow> g x)"

subsection \<open>Arguments and result\<close>

text \<open>
  The response \<open>Y\<close> is a number or an array of one, two or three dimensions
  (\<open>Y[i][v][j]\<close>: observation, vertex, component); the design \<open>M\<close> is a number, a vector or
  a matrix.
\<close>

datatype response = YNum real | Y1 "real list" | Y2 mat | Y3 "mat list"

datatype design = MNum real | M1 "real list" | M2 mat

text \<open>
  The dictionary \<open>slm\<close> that is returned, with its keys \<open>X\<close>, \<open>df\<close>, \<open>coef\<close> and \<open>SSE\<close>.
  \<open>coef\<close> is 2-D on the univariate path and 3-D (\<open>coef[p][v][j]\<close>) on the multivariate one.
\<close>

datatype coefs = Coef2 mat | Coef3 "mat list"

record slm =
  slm_X :: mat
  slm_df :: int
  slm_coef :: coefs
  slm_SSE :: mat

text \<open>
  What a call leaves behind: the value returned or the exception, whether the line
  \<^verbatim>\<open>Did you forget a constant term? :-)\<close> was printed, and the contents of the array
  object the caller passed as \<open>Y\<close>.
\<close>

record outcome =
  returned :: "error + slm"
  warned :: bool
  caller_Y :: response

subsection \<open>The design matrix and the intercept check\<close>

text \<open>\<^verbatim>\<open>np.shape(M)[0]\<close>, after a number has been rebound to a \<open>1 \<times> 1\<close> array.\<close>

fun shape0 :: "design \<Rightarrow> nat" where
  "shape0 (MNum m) = 1"
| "shape0 (M1 ms) = length ms"
| "shape0 (M2 M) = nrows M"

text \<open>
  Lines 33 to 47. The pseudo-inverse is \<^verbatim>\<open>np.linalg.pinv\<close>, a function of numpy and a
  parameter \<open>pinv\<close> here. The three branches compute \<open>r\<close> differently: the \<open>*\<close> of lines 37
  and 47 is numpy's elementwise product with broadcasting, \<^verbatim>\<open>np.ones((n))\<close> a vector that
  broadcasts as a row.
\<close>

fun design_matrix :: "nat \<Rightarrow> design \<Rightarrow> mat" where
  "design_matrix n (MNum m) = replicate n [m]"
| "design_matrix n (M1 ms) = replicate n ms"
| "design_matrix n (M2 M) = M"

fun intercept_check :: "nat \<Rightarrow> design \<Rightarrow> mat \<Rightarrow> mat \<Rightarrow> error + mat" where
  "intercept_check n (MNum m) X pinvX =
     bindE (np_binop (*) pinvX (ones n 1)) (\<lambda>t.
     bindE (np_dot t X) (\<lambda>u. np_binop (-) (ones n 1) u))"
| "intercept_check n (M1 ms) X pinvX =
     bindE (np_dot pinvX (ones n 1)) (\<lambda>t.
     bindE (np_dot X t) (\<lambda>u. np_binop (-) (ones n 1) u))"
| "intercept_check n (M2 M) X pinvX =
     bindE (np_binop (*) pinvX (ones 1 n)) (\<lambda>t.
     bindE (np_dot X t) (\<lambda>u. np_binop (-) (ones n 1) u))"

subsection \<open>The univariate path\<close>

text \<open>Lines 77 to 95, for a 2-D \<open>Y\<close>: the coefficients and the row of \<open>SSE\<close> as stored in \<open>slm\<close>.\<close>

definition univariate :: "mat \<Rightarrow> mat \<Rightarrow> design \<Rightarrow> mat \<Rightarrow> error + mat \<times> mat" where
  "univariate X pinvX M Y =
     (let p = ncols X; v = ncols Y in
      bindE (if (nrows Y, ncols Y) = (1, 1) \<and> 1 < shape0 M
             then Inr (map (map (\<lambda>x. x * Y ! 0 ! 0)) pinvX)
             else np_dot pinvX Y) (\<lambda>coef.
      bindE (np_dot X coef) (\<lambda>fitted.
      bindE (np_binop (-) Y fitted) (\<lambda>Y'.
      let SSE = sum_axis0 (square Y') in
      bindE (np_assign p v coef) (\<lambda>coef_out.
      bindE (np_assign 1 v [SSE]) (\<lambda>SSE_out. Inr (coef_out, SSE_out)))))))"

subsection \<open>The multivariate path\<close>

text \<open>\<^verbatim>\<open>Y[:, :, j]\<close>, and \<open>Y\<close> after the in-place assignment \<^verbatim>\<open>Y[:, :, j] = R\<close>.\<close>

definition component :: "mat list \<Rightarrow> nat \<Rightarrow> mat" where
  "component Y j = map (map (\<lambda>cell. cell ! j)) Y"

definition set_component :: "mat list \<Rightarrow> nat \<Rightarrow> mat \<Rightarrow> mat list" where
  "set_component Y j R =
     map (\<lambda>i. map (\<lambda>u. (Y ! i ! u)[j := R ! i ! u]) [0..<length (Y ! i)]) [0..<length Y]"

text \<open>
  Lines 105 to 107, one round of the loop over the components: the state is the list of
  coefficient matrices so far and the array \<open>Y\<close>, which the round overwrites.
\<close>

definition fit_component ::
  "mat \<Rightarrow> mat \<Rightarrow> nat \<Rightarrow> nat \<Rightarrow> nat \<Rightarrow> nat \<Rightarrow> mat list \<times> mat list \<Rightarrow> error + mat list \<times> mat list" where
  "fit_component X pinvX n p v j st =
     (case st of (cs, Y) \<Rightarrow>
      bindE (np_dot pinvX (component Y j)) (\<lambda>c.
      bindE (np_assign p v c) (\<lambda>coef_j.
      bindE (np_dot X coef_j) (\<lambda>fitted.
      bindE (np_binop (-) (component Y j) fitted) (\<lambda>R.
      bindE (np_assign n v R) (\<lambda>R'. Inr (cs @ [coef_j], set_component Y j R')))))))"

text \<open>
  The loop may stop with an exception after some rounds; the caller's array then keeps
  the residuals written so far.
\<close>

fun fit_components ::
  "mat \<Rightarrow> mat \<Rightarrow> nat \<Rightarrow> nat \<Rightarrow> nat \<Rightarrow> nat list \<Rightarrow> mat list \<times> mat list
     \<Rightarrow> (error + mat list) \<times> mat list" where
  "fit_components X pinvX n p v [] (cs, Y) = (Inr cs, Y)"
| "fit_components X pinvX n p v (j # js) (cs, Y) =
     (case fit_component X pinvX n p v j (cs, Y) of
        Inl e \<Rightarrow> (Inl e, Y)
      | Inr (cs', Y') \<Rightarrow> fit_components X pinvX n p v js (cs', Y'))"

text \<open>
  Lines 109 to 115: the rows of the packed \<open>SSE\<close>, for \<open>j1 = 0, 1, \<dots>\<close> and \<open>j2 = 0, \<dots>, j1\<close>.
  Each row is \<^verbatim>\<open>np.sum(Y[:,:,j1] * Y[:,:,j2], axis=1)\<close>, a vector with one entry per
  observation, stored into a row of \<open>vc\<close> entries.
\<close>

definition pairs :: "nat \<Rightarrow> (nat \<times> nat) list" where
  "pairs k = concat (map (\<lambda>j1. map (\<lambda>j2. (j1, j2)) [0..<Suc j1]) [0..<k])"

definition sse_row :: "mat list \<Rightarrow> nat \<Rightarrow> nat \<times> nat \<Rightarrow> error + real list" where
  "sse_row Y v jj =
     (case jj of (j1, j2) \<Rightarrow>
      bindE (np_binop (*) (component Y j1) (component Y j2)) (\<lambda>prod.
      bindE (np_assign 1 v [sum_axis1 prod]) (\<lambda>row. Inr (hd row))))"

fun sse_rows :: "mat list \<Rightarrow> nat \<Rightarrow> (nat \<times> nat) list \<Rightarrow> error + mat" where
  "sse_rows Y v [] = Inr []"
| "sse_rows Y v (jj # jjs) =
     bindE (sse_row Y v jj) (\<lambda>row. bindE (sse_rows Y v jjs) (\<lambda>rows. Inr (row # rows)))"

text \<open>\<open>coef[:, :, j]\<close> for \<open>j = 0, \<dots>, k - 1\<close>, put together as \<open>coef[p][v][j]\<close>.\<close>

definition stack_components :: "nat \<Rightarrow> nat \<Rightarrow> mat list \<Rightarrow> mat list" where
  "stack_components p v cs =
     map (\<lambda>i. map (\<lambda>u. map (\<lambda>c. c ! i ! u) cs) [0..<v]) [0..<p]"

definition multivariate ::
  "mat \<Rightarrow> mat \<Rightarrow> nat \<Rightarrow> nat \<Rightarrow> nat \<Rightarrow> mat list \<Rightarrow> (error + coefs \<times> mat) \<times> mat list" where
  "multivariate X pinvX n v k Y =
     (let p = ncols X in
      case fit_components X pinvX n p v [0..<k] ([], Y) of
        (Inl e, Y') \<Rightarrow> (Inl e, Y')
      | (Inr cs, Y') \<Rightarrow>
          (bindE (sse_rows Y' v (pairs k)) (\<lambda>SSE. Inr (Coef3 (stack_components p v cs), SSE)), Y'))"

subsection \<open>\<^verbatim>\<open>py_SurfStatLinMod\<close>, without a surface\<close>

text \<open>
  Lines 12 to 28: \<open>Y\<close> as an array of two or three dimensions and its shape
  \<open>n, v, k\<close>. A number becomes a \<open>1 \<times> 1\<close> array, a vector a single row.
\<close>

fun shape_n :: "response \<Rightarrow> nat" where
  "shape_n (YNum y) = 1"
| "shape_n (Y1 ys) = 1"
| "shape_n (Y2 Y) = nrows Y"
| "shape_n (Y3 Y) = length Y"

text \<open>
  The whole function for \<open>surf = None\<close>. The matrix rank is \<^verbatim>\<open>np.linalg.matrix_rank\<close>, the
  parameter \<open>matrix_rank\<close>. There is one chunk (\<open>nc = 1\<close>, \<open>chunk = v\<close>), so the slices
  \<open>(v1-1):v2\<close> are whole rows.

  On the univariate path \<open>Y\<close> is rebound to new arrays and the caller's array is never
  written. On the multivariate path the residuals are stored into \<open>Y\<close> itself.

  A 3-D \<open>Y\<close> with a single component takes the univariate path with 3-D arrays; with
  numpy's shape rules for \<^verbatim>\<open>np.dot\<close> and for assignment, and a pseudo-inverse of shape
  \<open>p \<times> n\<close>, this ends in a \<open>ValueError\<close> unless every extent is 1.
\<close>

definition finish :: "mat \<Rightarrow> int \<Rightarrow> bool \<Rightarrow> response \<Rightarrow> error + coefs \<times> mat \<Rightarrow> outcome" where
  "finish X0 d w Y r =
     \<lparr>returned = bindE r (\<lambda>(c, s). Inr \<lparr>slm_X = X0, slm_df = d, slm_coef = c, slm_SSE = s\<rparr>),
      warned = w, caller_Y = Y\<rparr>"

definition py_SurfStatLinMod ::
  "(mat \<Rightarrow> mat) \<Rightarrow> (mat \<Rightarrow> nat) \<Rightarrow> response \<Rightarrow> design \<Rightarrow> outcome" where
  "py_SurfStatLinMod pinv matrix_rank Y M =
     (let n = shape_n Y;
          X0 = design_matrix n M;
          pinvX = pinv X0
      in case intercept_check n M X0 pinvX of
           Inl e \<Rightarrow> \<lparr>returned = Inl e, warned = False, caller_Y = Y\<rparr>
         | Inr r \<Rightarrow>
             let w = (mean (square r) > spacing1);
                 d = int n - int (matrix_rank X0);
                 uni = (\<lambda>Y2d. finish X0 d w Y
                          (bindE (univariate X0 pinvX M Y2d) (\<lambda>(c, s). Inr (Coef2 c, s))))
             in case Y of
                  YNum y \<Rightarrow> uni [[y]]
                | Y1 ys \<Rightarrow> uni [ys]
                | Y2 Y2d \<Rightarrow> uni Y2d
                | Y3 Y3d \<Rightarrow>
                    (let v = nrows (hd Y3d); k = ncols (hd Y3d) in
                     if k = 1 then
                       (if n = 1 \<and> v = 1 \<and> nrows X0 = 1 \<and> ncols X0 = 1
                        then uni (component Y3d 0)
                        else finish X0 d w Y (Inl ValueError))
                     else (case multivariate X0 pinvX n v k Y3d of
                             (r, Y') \<Rightarrow> finish X0 d w (Y3 Y') r)))"

subsection \<open>Notions used to state the properties of the fitter\<close>

text \<open>
  The packed residual cross-products as the spec words them: the row for the pair
  \<open>(j1, j2)\<close> holds, for every vertex, the inner product across the observations of the
  residuals of the two components.
\<close>

definition spec_packed_SSE :: "mat list \<Rightarrow> nat \<Rightarrow> mat" where
  "spec_packed_SSE R k =
     map (\<lambda>(j1, j2). map (\<lambda>u. inner (column (component R j1) u) (column (component R j2) u))
                         [0..<nrows (hd R)])
         (pairs k)"

text \<open>The quantity of the intercept check as the spec words it: \<open>(I - X pinv(X)) 1\<close>.\<close>

definition spec_intercept_residual :: "mat \<Rightarrow> mat \<Rightarrow> mat" where
  "spec_intercept_residual X0 pinvX =
     map (\<lambda>i. [1 - inner (X0 ! i) (column (matmul pinvX (ones (nrows X0) 1)) 0)]) [0..<nrows X0]"

text \<open>
  The four Penrose equations, with the shape of the pseudo-inverse: what
  \<^verbatim>\<open>np.linalg.pinv\<close> computes.
\<close>

definition mat_T :: "mat \<Rightarrow> mat" where
  "mat_T A = map (\<lambda>j. column A j) [0..<ncols A]"

definition moore_penrose :: "mat \<Rightarrow> mat \<Rightarrow> bool" where
  "moore_penrose A P =
     (nrows P = ncols A \<and> ncols P = nrows A \<and> rectangular P
      \<and> matmul (matmul A P) A = A \<and> matmul (matmul P A) P = P
      \<and> mat_T (matmul A P) = matmul A P \<and> mat_T (matmul P A) = matmul P A)"

text \<open>A well-formed shape: \<open>r\<close> rows of \<open>c\<close> entries each, neither extent 0.\<close>

definition has_shape :: "mat \<Rightarrow> nat \<Rightarrow> nat \<Rightarrow> bool" where
  "has_shape A r c = (0 < r \<and> 0 < c \<and> length A = r \<and> list_all (\<lambda>row. length row = c) A)"

text \<open>The entrywise difference of two arrays of the same shape: the residuals.\<close>

definition mat_sub :: "mat \<Rightarrow> mat \<Rightarrow> mat" where
  "mat_sub A B = map (\<lambda>(r, s). map (\<lambda>(x, y). x - y) (zip r s)) (zip A B)"

text \<open>
  The response of the univariate path as the 2-D array the code works on (lines 12 to
  21): a number is a \<open>1 \<times> 1\<close> array, a vector a single row. A 3-D response has none.
\<close>

fun as_matrix :: "response \<Rightarrow> mat option" where
  "as_matrix (YNum y) = Some [[y]]"
| "as_matrix (Y1 ys) = Some [ys]"
| "as_matrix (Y2 Y) = Some Y"
| "as_matrix (Y3 Y) = None"

section \<open>Properties of the topology extractor\<close>

subsection \<open>Fixed-width arithmetic\<close>

lemma wrap_mod: "wrap dt x mod 2 ^ bits dt = x mod 2 ^ bits dt"
  by (cases dt) (simp_all add: mod_diff_left_eq)

lemma wrap_in_dtype: "in_dtype dt (wrap dt x)"
proof (cases dt)
  case (Signed w)
  have "0 \<le> (x + 2 ^ (w - 1)) mod 2 ^ w" "(x + 2 ^ (w - 1)) mod 2 ^ w < (2 ^ w :: int)"
    by simp_all
  then show ?thesis
    unfolding Signed by (simp add: in_dtype_def)
next
  case (Unsigned w)
  then show ?thesis
    by (simp add: in_dtype_def)
qed

lemma wrap_id: "in_dtype dt x \<Longrightarrow> wrap dt x = x"
proof (cases dt)
  case (Signed w)
  assume "in_dtype dt x"
  then have "0 \<le> x + 2 ^ (w - 1)" "x + 2 ^ (w - 1) < 2 ^ w"
    unfolding Signed by (simp_all add: in_dtype_def)
  then have "(x + 2 ^ (w - 1)) mod 2 ^ w = x + 2 ^ (w - 1)"
    by simp
  then show ?thesis
    unfolding Signed by simp
next
  case (Unsigned w)
  assume "in_dtype dt x"
  then show ?thesis
    unfolding Unsigned by (simp add: in_dtype_def)
qed

lemma wrap_dec_inj:
  assumes "in_dtype dt a" "in_dtype dt b" "wrap dt (a - 1) = wrap dt (b - 1)"
  shows "a = b"
proof -
  let ?N = "2 ^ bits dt :: int"
  have "(a - 1) mod ?N = (b - 1) mod ?N"
    using wrap_mod [of dt "a - 1"] wrap_mod [of dt "b - 1"] assms(3) by simp
  then have "?N dvd (a - 1) - (b - 1)"
    by (simp add: mod_eq_dvd_iff)
  then have d: "?N dvd a - b"
    by simp
  have "\<bar>a - b\<bar> < ?N"
    using assms(1,2) unfolding in_dtype_def by linarith
  with d have "a - b = 0"
    using zdvd_not_zless [of "\<bar>a - b\<bar>" ?N] by (cases "a - b = 0") (simp_all)
  then show ?thesis
    by simp
qed

subsection \<open>Triangles\<close>

lemma np_unique_sorted_list: "np_unique xs = sorted_list_of_set (set xs)"
  by (simp add: np_unique_def sorted_list_of_set_sort_remdups)

lemma set_np_unique [simp]: "set (np_unique xs) = set xs"
  by (simp add: np_unique_def)

lemma distinct_np_unique [simp]: "distinct (np_unique xs)"
  by (simp add: np_unique_def)

lemma sorted_np_unique [simp]: "sorted (np_unique xs)"
  by (simp add: np_unique_def)

lemma tri_edges_alt:
  "tri_edges dt tri = map (\<lambda>(a, b). (wrap dt (a - 1), wrap dt (b - 1)))
      (sorted_list_of_set (\<Union>t \<in> set (stored dt tri). triangle_sides (sort_row t)))"
proof -
  have 1: "set (map (\<lambda>(a, b, c). (a, b)) ts) \<union> set (map (\<lambda>(a, b, c). (a, c)) ts)
          \<union> set (map (\<lambda>(a, b, c). (b, c)) ts) = (\<Union>t \<in> set ts. triangle_sides t)" for ts :: "triangle list"
    by (induction ts) (auto simp: triangle_sides_def)
  show ?thesis
    unfolding tri_edges_def Let_def np_unique_sorted_list set_append Un_assoc[symmetric] 1
    by simp
qed

lemma sort_row_cases:
  "sort_row (a, b, c) = (if a \<le> b then (if b \<le> c then (a, b, c) else if a \<le> c then (a, c, b) else (c, a, b))
                         else (if a \<le> c then (b, a, c) else if b \<le> c then (b, c, a) else (c, b, a)))"
  by (simp add: Let_def)

lemma sort_row_sides: "triangle_sides (sort_row t) = canonical ` triangle_sides t"
proof (cases t)
  case (fields a b c)
  consider "a \<le> b" "b \<le> c" | "a \<le> b" "\<not> b \<le> c" "a \<le> c" | "a \<le> b" "\<not> b \<le> c" "\<not> a \<le> c"
    | "\<not> a \<le> b" "a \<le> c" | "\<not> a \<le> b" "\<not> a \<le> c" "b \<le> c" | "\<not> a \<le> b" "\<not> a \<le> c" "\<not> b \<le> c"
    by blast
  then show ?thesis
  proof cases
    case 1 then show ?thesis unfolding fields sort_row_cases
      by (simp add: triangle_sides_def canonical_def min_def max_def)
  next
    case 2 then show ?thesis unfolding fields sort_row_cases
      by (simp add: triangle_sides_def canonical_def min_def max_def insert_commute)
  next
    case 3 then show ?thesis unfolding fields sort_row_cases
      by (simp add: triangle_sides_def canonical_def min_def max_def insert_commute)
  next
    case 4 then show ?thesis unfolding fields sort_row_cases
      by (simp add: triangle_sides_def canonical_def min_def max_def insert_commute)
  next
    case 5 then show ?thesis unfolding fields sort_row_cases
      by (simp add: triangle_sides_def canonical_def min_def max_def insert_commute)
  next
    case 6 then show ?thesis unfolding fields sort_row_cases
      by (simp add: triangle_sides_def canonical_def min_def max_def insert_commute)
  qed
qed

lemma sorted_pairs_geometric:
  "(\<Union>t \<in> set tri. triangle_sides (sort_row t)) = geometric_edges tri"
  by (simp add: geometric_edges_def sort_row_sides image_UN)

lemma finite_triangle_sides: "finite (triangle_sides t)"
  by (cases t) (simp add: triangle_sides_def)

lemma finite_geometric_edges [simp]: "finite (geometric_edges tri)"
  unfolding geometric_edges_def by (intro finite_imageI finite_UN_I finite_set finite_triangle_sides)

lemma tri_edges_geometric:
  "tri_edges dt tri = map (\<lambda>(a, b). (wrap dt (a - 1), wrap dt (b - 1)))
      (sorted_list_of_set (geometric_edges (stored dt tri)))"
  unfolding tri_edges_alt sorted_pairs_geometric ..

lemma stored_in_dtype:
  assumes "(a, b, c) \<in> set (stored dt tri)"
  shows "in_dtype dt a \<and> in_dtype dt b \<and> in_dtype dt c"
  using assms by (auto simp: stored_def wrap_in_dtype)

lemma geometric_edges_in_dtype:
  assumes "(a, b) \<in> geometric_edges (stored dt tri)"
  shows "in_dtype dt a \<and> in_dtype dt b"
proof -
  obtain t u v where t: "t \<in> set (stored dt tri)" "(u, v) \<in> triangle_sides t" "(a, b) = canonical (u, v)"
    using assms unfolding geometric_edges_def by auto
  obtain x y z where xyz: "t = (x, y, z)"
    by (cases t)
  have "in_dtype dt u \<and> in_dtype dt v"
    using t(1,2) stored_in_dtype [of x y z dt tri] unfolding xyz by (auto simp: triangle_sides_def)
  then show ?thesis
    using t(3) by (auto simp: canonical_def min_def max_def)
qed

lemma inj_wrap_dec_pair:
  "inj_on (\<lambda>(a, b). (wrap dt (a - 1), wrap dt (b - 1))) (geometric_edges (stored dt tri))"
proof (rule inj_onI)
  fix e e' assume e: "e \<in> geometric_edges (stored dt tri)" "e' \<in> geometric_edges (stored dt tri)"
    and eq: "(case e of (a, b) \<Rightarrow> (wrap dt (a - 1), wrap dt (b - 1)))
           = (case e' of (a, b) \<Rightarrow> (wrap dt (a - 1), wrap dt (b - 1)))"
  obtain a b a' b' where ab: "e = (a, b)" "e' = (a', b')"
    by (cases e; cases e')
  have "in_dtype dt a \<and> in_dtype dt b" "in_dtype dt a' \<and> in_dtype dt b'"
    using e geometric_edges_in_dtype unfolding ab by blast+
  then have "a = a'" "b = b'"
    using eq unfolding ab by (auto intro: wrap_dec_inj)
  then show "e = e'"
    unfolding ab by simp
qed

lemma tri_edges_distinct: "distinct (tri_edges dt tri)"
  unfolding tri_edges_geometric by (simp add: distinct_map inj_wrap_dec_pair)

lemma tri_edges_set:
  "set (tri_edges dt tri)
     = (\<lambda>(a, b). (wrap dt (a - 1), wrap dt (b - 1))) ` geometric_edges (stored dt tri)"
  unfolding tri_edges_geometric by simp

lemma stored_cong: "set tri' = set tri \<Longrightarrow> set (stored dt tri') = set (stored dt tri)"
  by (simp add: stored_def)

lemma tri_edges_cong:
  assumes "set tri' = set tri"
  shows "tri_edges dt tri' = tri_edges dt tri"
  unfolding tri_edges_geometric geometric_edges_def stored_cong [OF assms] ..

lemma mesh_edges_tri:
  "mesh_edges (Dict (Some (dt, tri)) lat) msk = apply_mask (Inr (tri_edges dt tri)) msk"
  by (simp add: dict_edges_def)

text \<open>
  Claim C6. On a triangle list (no mask), \<open>mesh_edges\<close> returns a list without repetitions
  whose entries are exactly the geometric edges (canonical pairs of the sides, each index
  shifted by the final \<^verbatim>\<open>- 1\<close>), in the ascending lexicographic order of the canonical
  pairs. The result, with or without a mask, depends only on the set of triangles: it is
  the same for any reordering of the triangle list, and appending a triangle that is
  already present does not change it.
\<close>

theorem extractEdges_triangles:
  "mesh_edges (Dict (Some (dt, tri)) lat) None = Inr (tri_edges dt tri)
   \<and> distinct (tri_edges dt tri)
   \<and> set (tri_edges dt tri)
       = (\<lambda>(u, v). (wrap dt (u - 1), wrap dt (v - 1))) ` geometric_edges (stored dt tri)
   \<and> tri_edges dt tri
       = map (\<lambda>(u, v). (wrap dt (u - 1), wrap dt (v - 1)))
           (sorted_list_of_set (geometric_edges (stored dt tri)))
   \<and> (set tri' = set tri \<longrightarrow>
        mesh_edges (Dict (Some (dt, tri')) lat) msk = mesh_edges (Dict (Some (dt, tri)) lat) msk)
   \<and> (t \<in> set tri \<longrightarrow>
        mesh_edges (Dict (Some (dt, tri @ [t])) lat) msk = mesh_edges (Dict (Some (dt, tri)) lat) msk)"
proof -
  have 1: "mesh_edges (Dict (Some (dt, tri)) lat) None = Inr (tri_edges dt tri)"
    by (simp add: dict_edges_def apply_mask_def)
  have 2: "mesh_edges (Dict (Some (dt, tri')) lat) msk = mesh_edges (Dict (Some (dt, tri)) lat) msk"
    if "set tri' = set tri"
    unfolding mesh_edges_tri using tri_edges_cong [OF that] by simp
  have 3: "mesh_edges (Dict (Some (dt, tri @ [t])) lat) msk = mesh_edges (Dict (Some (dt, tri)) lat) msk"
    if "t \<in> set tri"
  proof -
    have "set (tri @ [t]) = set tri"
      using that by auto
    then show ?thesis
      unfolding mesh_edges_tri using tri_edges_cong [of "tri @ [t]" tri] by simp
  qed
  show ?thesis
    using 1 2 3 tri_edges_distinct [of dt tri] tri_edges_set [of dt tri] tri_edges_geometric [of dt tri]
    by blast
qed

theorem extractEdges_triangles_witness:
  "set [(2, 3, 4), (1, 2, 3 :: int)] = set [(1, 2, 3), (2, 3, 4)]
   \<and> (1, 2, 3) \<in> set [(1, 2, 3), (2, 3, 4 :: int)]
   \<and> mesh_edges (Dict (Some (Signed 64, [(2, 3, 4), (1, 2, 3)])) None) None
       = Inr [(0, 1), (0, 2), (1, 2), (1, 3), (2, 3)]
   \<and> mesh_edges (Dict (Some (Signed 64, [(1, 2, 3), (2, 3, 4)] @ [(1, 2, 3)])) None) None
       = Inr [(0, 1), (0, 2), (1, 2), (1, 3), (2, 3)]"
proof -
  have e: "tri_edges (Signed 64) [(1, 2, 3), (2, 3, 4)] = [(0, 1), (0, 2), (1, 2), (1, 3), (2, 3)]"
    by code_simp
  have s: "set [(2, 3, 4), (1, 2, 3 :: int)] = set [(1, 2, 3), (2, 3, 4)]"
    by auto
  have m: "(1, 2, 3) \<in> set [(1, 2, 3), (2, 3, 4 :: int)]"
    by simp
  show ?thesis
    using extractEdges_triangles [of "Signed 64" "[(1, 2, 3), (2, 3, 4)]" None
        "[(2, 3, 4), (1, 2, 3)]" None "(1, 2, 3)"]
      s m unfolding e by metis
qed

lemma edge_verts_tri_edges:
  "edge_verts (tri_edges dt tri) = (\<lambda>x. wrap dt (x - 1)) ` tri_verts (stored dt tri)"
proof -
  have 1: "(\<Union>e \<in> canonical ` triangle_sides t. {wrap dt (fst e - 1), wrap dt (snd e - 1)})
      = (\<lambda>x. wrap dt (x - 1)) ` (case t of (a, b, c) \<Rightarrow> {a, b, c})" for t
    by (cases t) (simp add: triangle_sides_def canonical_def min_def max_def insert_commute)
  have "edge_verts (tri_edges dt tri)
      = (\<Union>e \<in> geometric_edges (stored dt tri). {wrap dt (fst e - 1), wrap dt (snd e - 1)})"
    unfolding edge_verts_def tri_edges_set by (simp add: case_prod_beta)
  also have "\<dots> = (\<Union>t \<in> set (stored dt tri).
      \<Union>e \<in> canonical ` triangle_sides t. {wrap dt (fst e - 1), wrap dt (snd e - 1)})"
    unfolding geometric_edges_def by blast
  also have "\<dots> = (\<Union>t \<in> set (stored dt tri). (\<lambda>x. wrap dt (x - 1)) ` (case t of (a, b, c) \<Rightarrow> {a, b, c}))"
    by (simp only: 1)
  also have "\<dots> = (\<lambda>x. wrap dt (x - 1)) ` tri_verts (stored dt tri)"
    unfolding tri_verts_def by (simp add: image_UN case_prod_beta)
  finally show ?thesis .
qed

lemma tri_verts_stored: "tri_verts (stored dt tri) = wrap dt ` tri_verts tri"
  unfolding tri_verts_def stored_def by (induction tri) (auto simp: image_Un)

lemma wrap_signed_small:
  assumes "0 < w" "- 1 \<le> x" "x \<le> 0"
  shows "wrap (Signed w) x = x"
proof -
  have "(1 :: int) \<le> 2 ^ (w - 1)"
    by simp
  moreover have "(2 :: int) ^ w = 2 * 2 ^ (w - 1)"
    using assms(1) by (cases w) simp_all
  ultimately have "in_dtype (Signed w) x"
    unfolding in_dtype_def lowest.simps bits.simps using assms(2,3) by linarith
  then show ?thesis
    by (rule wrap_id)
qed

lemma wrap_unsigned_minus_one: "wrap (Unsigned w) (- 1) = 2 ^ w - 1"
proof -
  have "(- 1 :: int) mod 2 ^ w = (- 1 + 2 ^ w) mod 2 ^ w"
    by simp
  also have "\<dots> = 2 ^ w - 1"
    by (simp add: zmod_minus1)
  finally show ?thesis
    by simp
qed

lemma edge_verts_tri_edges_wrap:
  "edge_verts (tri_edges dt tri) = (\<lambda>x. wrap dt (wrap dt x - 1)) ` tri_verts tri"
  unfolding edge_verts_tri_edges tri_verts_stored image_image ..

lemma edge_verts_no_wrap:
  assumes "\<forall>x \<in> tri_verts tri. in_dtype dt x \<and> lowest dt < x"
  shows "edge_verts (tri_edges dt tri) = (\<lambda>x. x - 1) ` tri_verts tri"
  unfolding edge_verts_tri_edges_wrap
proof (rule image_cong [OF refl])
  fix x assume "x \<in> tri_verts tri"
  then have x: "in_dtype dt x" "lowest dt < x"
    using assms by auto
  then have "in_dtype dt (x - 1)"
    by (simp add: in_dtype_def)
  then show "wrap dt (wrap dt x - 1) = x - 1"
    using x(1) by (simp add: wrap_id)
qed

lemma finite_tri_verts [simp]: "finite (tri_verts tri)"
  unfolding tri_verts_def by (auto split: prod.splits)

lemma Min_dec:
  assumes "tri \<noteq> []"
  shows "Min ((\<lambda>x. x - 1) ` tri_verts tri) = Min (tri_verts tri) - 1"
proof -
  obtain t ts where "tri = t # ts"
    using assms by (cases tri) auto
  then have ne: "tri_verts tri \<noteq> {}"
    by (cases t) (auto simp: tri_verts_def)
  have "mono (\<lambda>x::int. x - 1)"
    by (simp add: mono_def)
  from mono_Min_commute [OF this finite_tri_verts ne] show ?thesis
    by simp
qed

text \<open>
  Claim C10, amended. On the triangle path the result is the sorted list of canonical
  pairs with 1 subtracted from every index, in the arithmetic of the element type of the
  array. When no index is the least value of the type, the indices of the result are
  those of the triangles shifted down by one, so the least index of the result is the
  least index of the input minus one (0 exactly when the input starts at 1). For a
  signed type, a triangle list that refers to vertex 0 yields an entry \<open>-1\<close>. For an
  unsigned type of \<open>w\<close> bits vertex 0 becomes \<open>2 ^ w - 1\<close> and no entry is \<open>-1\<close>.
\<close>

theorem extractEdges_triangles_minus_one:
  "mesh_edges (Dict (Some (dt, tri)) lat) None = Inr (tri_edges dt tri)
   \<and> tri_edges dt tri
       = map (\<lambda>(a, b). (wrap dt (a - 1), wrap dt (b - 1)))
           (sorted_list_of_set (geometric_edges (stored dt tri)))
   \<and> edge_verts (tri_edges dt tri) = (\<lambda>x. wrap dt (x - 1)) ` tri_verts (stored dt tri)
   \<and> ((\<forall>x \<in> tri_verts tri. in_dtype dt x \<and> lowest dt < x) \<longrightarrow>
        edge_verts (tri_edges dt tri) = (\<lambda>x. x - 1) ` tri_verts tri
        \<and> (tri \<noteq> [] \<longrightarrow> Min (edge_verts (tri_edges dt tri)) = Min (tri_verts tri) - 1))
   \<and> (0 < w \<and> 0 \<in> tri_verts tri \<longrightarrow> - 1 \<in> edge_verts (tri_edges (Signed w) tri))
   \<and> (0 \<in> tri_verts tri \<longrightarrow>
        2 ^ w - 1 \<in> edge_verts (tri_edges (Unsigned w) tri)
        \<and> - 1 \<notin> edge_verts (tri_edges (Unsigned w) tri))"
proof -
  have 1: "mesh_edges (Dict (Some (dt, tri)) lat) None = Inr (tri_edges dt tri)"
    by (simp add: dict_edges_def apply_mask_def)
  have 4: "edge_verts (tri_edges dt tri) = (\<lambda>x. x - 1) ` tri_verts tri
        \<and> (tri \<noteq> [] \<longrightarrow> Min (edge_verts (tri_edges dt tri)) = Min (tri_verts tri) - 1)"
    if "\<forall>x \<in> tri_verts tri. in_dtype dt x \<and> lowest dt < x"
    using edge_verts_no_wrap [OF that] Min_dec [of tri] by simp
  have 5: "- 1 \<in> edge_verts (tri_edges (Signed w) tri)" if "0 < w \<and> 0 \<in> tri_verts tri"
  proof -
    have "wrap (Signed w) 0 = 0" "wrap (Signed w) (- 1) = - 1"
      using that wrap_signed_small [of w 0] wrap_signed_small [of w "- 1"] by simp_all
    then have "wrap (Signed w) (wrap (Signed w) 0 - 1) = - 1"
      by (simp only: diff_0)
    then show ?thesis
      unfolding edge_verts_tri_edges_wrap using that by (metis imageI)
  qed
  have 6: "2 ^ w - 1 \<in> edge_verts (tri_edges (Unsigned w) tri)
        \<and> - 1 \<notin> edge_verts (tri_edges (Unsigned w) tri)" if "0 \<in> tri_verts tri"
  proof
    have "wrap (Unsigned w) (wrap (Unsigned w) 0 - 1) = 2 ^ w - 1"
      using wrap_unsigned_minus_one [of w] by simp
    then show "2 ^ w - 1 \<in> edge_verts (tri_edges (Unsigned w) tri)"
      unfolding edge_verts_tri_edges_wrap using that by (metis imageI)
    have nonneg: "0 \<le> wrap (Unsigned w) y" for y
      by simp
    show "- 1 \<notin> edge_verts (tri_edges (Unsigned w) tri)"
      unfolding edge_verts_tri_edges_wrap
    proof
      assume "- 1 \<in> (\<lambda>x. wrap (Unsigned w) (wrap (Unsigned w) x - 1)) ` tri_verts tri"
      then obtain x where "- 1 = wrap (Unsigned w) (wrap (Unsigned w) x - 1)"
        by blast
      then show False
        using nonneg [of "wrap (Unsigned w) x - 1"] by linarith
    qed
  qed
  show ?thesis
    using 1 tri_edges_geometric [of dt tri] edge_verts_tri_edges [of dt tri] 4 5 6 by blast
qed

theorem extractEdges_triangles_minus_one_witness:
  "tri_verts [(1, 2, 3)] = {1, 2, 3}
   \<and> in_dtype (Signed 64) 1 \<and> in_dtype (Signed 64) 2 \<and> in_dtype (Signed 64) 3
   \<and> lowest (Signed 64) < 1
   \<and> [(1, 2, 3 :: int)] \<noteq> []
   \<and> Min (edge_verts (tri_edges (Signed 64) [(1, 2, 3)])) = Min (tri_verts [(1, 2, 3)]) - 1
   \<and> (0 :: nat) < 64 \<and> 0 \<in> tri_verts [(0, 1, 2)]
   \<and> mesh_edges (Dict (Some (Signed 64, [(0, 1, 2)])) None) None = Inr [(- 1, 0), (- 1, 1), (0, 1)]
   \<and> - 1 \<in> edge_verts [(- 1, 0), (- 1, 1), (0, 1)]
   \<and> 2 ^ 8 - 1 \<in> edge_verts (tri_edges (Unsigned 8) [(0, 1, 2)])"
proof -
  have e: "tri_edges (Signed 64) [(0, 1, 2)] = [(- 1, 0), (- 1, 1), (0, 1)]"
    by code_simp
  have z: "0 \<in> tri_verts [(0, 1, 2)]"
    by (simp add: tri_verts_def)
  have r: "\<forall>x \<in> tri_verts [(1, 2, 3)]. in_dtype (Signed 64) x \<and> lowest (Signed 64) < x"
    by (simp add: tri_verts_def in_dtype_def)
  have n: "[(1, 2, 3 :: int)] \<noteq> []" "(0 :: nat) < 64"
    by simp_all
  note th1 = extractEdges_triangles_minus_one [of "Signed 64" "[(1, 2, 3)]" None 64]
  note th2 = extractEdges_triangles_minus_one [of "Signed 64" "[(0, 1, 2)]" None 64]
  note th3 = extractEdges_triangles_minus_one [of "Signed 64" "[(0, 1, 2)]" None 8]
  from th1 r n have a: "Min (edge_verts (tri_edges (Signed 64) [(1, 2, 3)])) = Min (tri_verts [(1, 2, 3)]) - 1"
    by blast
  from th2 have b: "mesh_edges (Dict (Some (Signed 64, [(0, 1, 2)])) None) None
      = Inr (tri_edges (Signed 64) [(0, 1, 2)])"
    by (rule conjunct1)
  from th2 z n have c: "- 1 \<in> edge_verts (tri_edges (Signed 64) [(0, 1, 2)])"
    by blast
  from th3 z have d: "2 ^ 8 - 1 \<in> edge_verts (tri_edges (Unsigned 8) [(0, 1, 2)])"
    by blast
  have v: "tri_verts [(1, 2, 3)] = {1, 2, 3}"
    "in_dtype (Signed 64) 1 \<and> in_dtype (Signed 64) 2 \<and> in_dtype (Signed 64) 3"
    "lowest (Signed 64) < 1"
    by (simp_all add: tri_verts_def in_dtype_def)
  show ?thesis
    using a b c d z v n unfolding e by blast
qed

text \<open>
  Claim C10 as stated, for any triangle list, fails for an unsigned array: the 0-based
  triangle \<open>(0, 1, 2)\<close> of type \<open>uint8\<close> comes out with the entry 255 and without \<open>-1\<close>.
\<close>

theorem extractEdges_triangles_minus_one_counterexample:
  "mesh_edges (Dict (Some (Unsigned 8, [(0, 1, 2)])) None) None = Inr [(255, 0), (255, 1), (0, 1)]
   \<and> - 1 \<notin> edge_verts [(255, 0), (255, 1), (0, 1)]
   \<and> in_dtype (Unsigned 8) 0 \<and> in_dtype (Unsigned 8) 1 \<and> in_dtype (Unsigned 8) 2"
proof -
  have "mesh_edges (Dict (Some (Unsigned 8, [(0, 1, 2)])) None) None = Inr [(255, 0), (255, 1), (0, 1)]"
    by code_simp
  then show ?thesis
    by (simp add: edge_verts_def in_dtype_def)
qed

subsection \<open>Masking\<close>

lemma filter_zip_map: "map fst (filter snd (zip xs (map P xs))) = filter P xs"
  by (induction xs) simp_all

lemma set_flatten_edges: "set (flatten_edges Y) = edge_verts Y"
  unfolding flatten_edges_def edge_verts_def by (induction Y) auto

lemma rank_nth:
  assumes "sorted val" "distinct val" "j < length val"
  shows "rank_in (set val) (val ! j) = int j"
proof -
  have "{v \<in> set val. v < val ! j} = set (take j val)"
  proof (intro set_eqI iffI)
    fix v assume "v \<in> {v \<in> set val. v < val ! j}"
    then obtain k where k: "k < length val" "v = val ! k" "val ! k < val ! j"
      by (auto simp: in_set_conv_nth)
    have "k < j"
    proof (rule ccontr)
      assume "\<not> k < j"
      then have "val ! j \<le> val ! k"
        using assms(1) k(1) by (intro sorted_nth_mono) auto
      with k(3) show False by simp
    qed
    then show "v \<in> set (take j val)"
      using k assms(3) by (auto simp: in_set_conv_nth)
  next
    fix v assume "v \<in> set (take j val)"
    then obtain k where k: "k < j" "v = val ! k"
      using assms(3) by (auto simp: in_set_conv_nth)
    have "val ! k \<le> val ! j"
      using assms k by (intro sorted_nth_mono) auto
    moreover have "val ! k \<noteq> val ! j"
      using assms k by (simp add: nth_eq_iff_index_eq)
    ultimately show "v \<in> {v \<in> set val. v < val ! j}"
      using k assms(3) by auto
  qed
  moreover have "card (set (take j val)) = j"
    using assms by (simp add: distinct_card)
  ultimately show ?thesis
    by (simp add: rank_in_def)
qed

lemma nth_ge_index:
  assumes "sorted val" "distinct val" "\<forall>x \<in> set val. 0 \<le> x" "i < length val"
  shows "int i \<le> val ! i"
  using assms(4)
proof (induction i)
  case 0
  then show ?case using assms(3) by simp
next
  case (Suc i)
  have "val ! i \<le> val ! Suc i"
    using assms(1) Suc.prems by (intro sorted_nth_mono) auto
  moreover have "val ! i \<noteq> val ! Suc i"
    using assms(2) Suc.prems by (simp add: nth_eq_iff_index_eq)
  ultimately show ?case
    using Suc by simp
qed

lemma replace_val_map:
  "replace_val old new (map (\<lambda>(a, b). (g a, g b)) Y)
     = map (\<lambda>(a, b). (if g a = old then new else g a, if g b = old then new else g b)) Y"
  by (simp add: replace_val_def case_prod_beta)

lemma partial_rank_step:
  assumes "sorted val" "distinct val" "\<forall>x \<in> set val. 0 \<le> x" "i < length val" "x \<in> set val"
  shows "(if partial_rank val i x = val ! i then int i else partial_rank val i x)
           = partial_rank val (Suc i) x"
proof -
  have tk: "set (take (Suc i) val) = insert (val ! i) (set (take i val))"
    using assms(4) by (simp add: take_Suc_conv_app_nth)
  have notin: "val ! i \<notin> set (take i val)"
  proof
    assume "val ! i \<in> set (take i val)"
    then obtain k where "k < i" "val ! k = val ! i"
      using assms(4) by (auto simp: in_set_conv_nth)
    then show False
      using assms(2,4) by (simp add: nth_eq_iff_index_eq)
  qed
  show ?thesis
  proof (cases "x \<in> set (take i val)")
    case True
    then obtain j where j: "j < i" "x = val ! j"
      using assms(4) by (auto simp: in_set_conv_nth)
    then have "rank_in (set val) x = int j"
      using rank_nth [OF assms(1,2), of j] assms(4) by simp
    moreover have "int i \<le> val ! i"
      by (rule nth_ge_index [OF assms(1-4)])
    ultimately have "rank_in (set val) x \<noteq> val ! i"
      using j(1) by simp
    then show ?thesis
      using True by (simp add: partial_rank_def tk)
  next
    case False
    show ?thesis
    proof (cases "x = val ! i")
      case True
      then show ?thesis
        using notin rank_nth [OF assms(1,2,4)] by (simp add: partial_rank_def tk)
    next
      case neq: False
      then show ?thesis
        using False by (simp add: partial_rank_def tk)
    qed
  qed
qed

lemma fold_replace_val:
  assumes "sorted val" "distinct val" "\<forall>x \<in> set val. 0 \<le> x" "edge_verts Y \<subseteq> set val"
    and "i \<le> length val"
  shows "fold (\<lambda>i Y. replace_val (val ! i) (int i) Y) [0..<i] Y
           = map (\<lambda>(a, b). (partial_rank val i a, partial_rank val i b)) Y"
  using assms(5)
proof (induction i)
  case 0
  show ?case by (simp add: partial_rank_def)
next
  case (Suc i)
  then have ih: "fold (\<lambda>i Y. replace_val (val ! i) (int i) Y) [0..<i] Y
           = map (\<lambda>(a, b). (partial_rank val i a, partial_rank val i b)) Y"
    by simp
  have "(if partial_rank val i a = val ! i then int i else partial_rank val i a)
           = partial_rank val (Suc i) a
        \<and> (if partial_rank val i b = val ! i then int i else partial_rank val i b)
           = partial_rank val (Suc i) b" if "(a, b) \<in> set Y" for a b
  proof -
    have "a \<in> set val" "b \<in> set val"
      using that assms(4) by (auto simp: edge_verts_def)
    then show ?thesis
      using partial_rank_step [OF assms(1-3)] Suc.prems by simp
  qed
  then have "map (\<lambda>(a, b). (if partial_rank val i a = val ! i then int i else partial_rank val i a,
                           if partial_rank val i b = val ! i then int i else partial_rank val i b)) Y
        = map (\<lambda>(a, b). (partial_rank val (Suc i) a, partial_rank val (Suc i) b)) Y"
    by (intro map_cong refl) (auto simp del: partial_rank_def)
  then show ?case
    by (simp add: ih replace_val_map del: upt_Suc add: upt_Suc_append)
qed

lemma make_contiguous_renumber:
  assumes "\<forall>x \<in> edge_verts Y. 0 \<le> x"
  shows "make_contiguous Y = map (renumber (edge_verts Y)) Y"
proof -
  let ?val = "np_unique (flatten_edges Y)"
  have sv: "set ?val = edge_verts Y"
    by (simp add: set_flatten_edges)
  have "fold (\<lambda>i Y. replace_val (?val ! i) (int i) Y) [0..<length ?val] Y
           = map (\<lambda>(a, b). (partial_rank ?val (length ?val) a, partial_rank ?val (length ?val) b)) Y"
    using assms by (intro fold_replace_val) (simp_all add: set_flatten_edges)
  also have "\<dots> = map (renumber (edge_verts Y)) Y"
  proof (intro map_cong refl)
    fix e assume "e \<in> set Y"
    then have "fst e \<in> set ?val" "snd e \<in> set ?val"
      unfolding sv edge_verts_def by (cases e; force)+
    then show "(case e of (a, b) \<Rightarrow> (partial_rank ?val (length ?val) a, partial_rank ?val (length ?val) b))
        = renumber (edge_verts Y) e"
      by (simp add: partial_rank_def renumber_def case_prod_beta set_flatten_edges)
  qed
  finally show ?thesis
    by (simp add: make_contiguous_def Let_def)
qed

lemma finite_edge_verts [simp]: "finite (edge_verts Y)"
  unfolding edge_verts_def by (auto split: prod.splits)

lemma mask_edges_filter:
  assumes "valid_edges edges (length msk)"
  shows "mask_edges edges msk = (make_contiguous (filter (keeps msk) edges), map (keeps msk) edges)"
proof -
  let ?missing = "[int i. i \<leftarrow> [0..<length msk], \<not> msk ! i]"
  have mem: "(a \<in> set ?missing) = (\<not> msk ! nat a)" if "0 \<le> a" "a < int (length msk)" for a
  proof
    assume "a \<in> set ?missing"
    then show "\<not> msk ! nat a" by auto
  next
    assume "\<not> msk ! nat a"
    then have "nat a < length msk \<and> \<not> msk ! nat a \<and> a = int (nat a)"
      using that by simp
    then show "a \<in> set ?missing" by force
  qed
  have idx: "map (\<lambda>(ra, rb). \<not> (ra \<or> rb))
               (map (\<lambda>(a, b). (a \<in> set ?missing, b \<in> set ?missing)) edges) = map (keeps msk) edges"
  proof (unfold map_map, intro map_cong refl)
    fix e assume "e \<in> set edges"
    then have "0 \<le> fst e" "fst e < int (length msk)" "0 \<le> snd e" "snd e < int (length msk)"
      using assms by (auto simp: valid_edges_def list_all_iff)
    then show "((\<lambda>(ra, rb). \<not> (ra \<or> rb)) \<circ> (\<lambda>(a, b). (a \<in> set ?missing, b \<in> set ?missing))) e
        = keeps msk e"
      using mem [of "fst e"] mem [of "snd e"] by (simp add: keeps_def case_prod_beta)
  qed
  show ?thesis
    unfolding mask_edges_def Let_def idx filter_zip_map ..
qed

lemma rank_in_less_card:
  assumes "finite V" "x \<in> V"
  shows "rank_in V x < int (card V)"
proof -
  have "{v \<in> V. v < x} \<subset> V"
    using assms(2) by auto
  then show ?thesis
    unfolding rank_in_def using assms(1) by (simp add: psubset_card_mono)
qed

lemma rank_in_strict_mono:
  assumes "finite V" "x \<in> V" "y \<in> V" "x < y"
  shows "rank_in V x < rank_in V y"
proof -
  have "{v \<in> V. v < x} \<subset> {v \<in> V. v < y}"
    using assms(2,4) by auto
  moreover have "finite {v \<in> V. v < y}"
    using assms(1) by simp
  ultimately show ?thesis
    unfolding rank_in_def by (simp add: psubset_card_mono)
qed

lemma rank_in_image:
  assumes "finite V"
  shows "rank_in V ` V = {0..<int (card V)}"
proof -
  let ?val = "sorted_list_of_set V"
  have sv: "set ?val = V" and len: "length ?val = card V"
    using assms by simp_all
  have "V = (\<lambda>j. ?val ! j) ` {..<length ?val}"
    using sv by (auto simp: set_conv_nth)
  then have "rank_in V ` V = rank_in V ` (\<lambda>j. ?val ! j) ` {..<length ?val}"
    by simp
  also have "\<dots> = (\<lambda>j. rank_in (set ?val) (?val ! j)) ` {..<length ?val}"
    unfolding image_image sv ..
  also have "\<dots> = int ` {..<length ?val}"
    by (intro image_cong refl rank_nth) simp_all
  also have "\<dots> = {0..<int (card V)}"
    unfolding len by (simp add: image_int_atLeastLessThan lessThan_atLeast0)
  finally show ?thesis .
qed

lemma card_surviving:
  assumes "valid_edges edges (length msk)"
  shows "card (surviving_verts edges msk) \<le> count_true msk"
proof -
  have "surviving_verts edges msk \<subseteq> int ` {i. i < length msk \<and> id (msk ! i)}"
  proof
    fix x assume "x \<in> surviving_verts edges msk"
    then obtain a b where ab: "(a, b) \<in> set edges" "keeps msk (a, b)" "x = a \<or> x = b"
      unfolding surviving_verts_def edge_verts_def by auto
    then have "0 \<le> a" "a < int (length msk)" "0 \<le> b" "b < int (length msk)"
      using assms by (auto simp: valid_edges_def list_all_iff)
    then have "nat x < length msk \<and> msk ! nat x \<and> x = int (nat x)"
      using ab by (auto simp: keeps_def)
    then show "x \<in> int ` {i. i < length msk \<and> id (msk ! i)}"
      by (intro image_eqI [where x = "nat x"]) simp_all
  qed
  then have "card (surviving_verts edges msk) \<le> card (int ` {i. i < length msk \<and> id (msk ! i)})"
    by (intro card_mono) simp_all
  also have "\<dots> \<le> card {i. i < length msk \<and> id (msk ! i)}"
    by (intro card_image_le) simp
  also have "\<dots> = count_true msk"
    unfolding count_true_def length_filter_conv_card ..
  finally show ?thesis .
qed

text \<open>
  Claim C7. An edge list over the vertices of the mask has all its indices among the
  positions of the mask (\<open>0 \<le> i < length mask\<close>: the mask has one entry per vertex and the
  indices are 0-based). For such an edge list and every mask, \<open>mask_edges\<close> drops exactly
  the edges with an endpoint at a false entry (the retention vector says which), and
  replaces each surviving index by its rank among the surviving indices: the ranks fill
  \<open>0, \<dots>, m - 1\<close>, keep the order of the original indices, and every index of the result
  is below the number of true entries.
\<close>

theorem maskEdges_valid_indices:
  "valid_edges edges (length msk) \<Longrightarrow>
     snd (mask_edges edges msk) = map (keeps msk) edges
   \<and> fst (mask_edges edges msk)
       = map (renumber (surviving_verts edges msk)) (filter (keeps msk) edges)
   \<and> rank_in (surviving_verts edges msk) ` surviving_verts edges msk
       = {0..<int (card (surviving_verts edges msk))}
   \<and> (\<forall>x \<in> surviving_verts edges msk. \<forall>y \<in> surviving_verts edges msk.
         x < y \<longrightarrow> rank_in (surviving_verts edges msk) x < rank_in (surviving_verts edges msk) y)
   \<and> max_index_below (fst (mask_edges edges msk)) (count_true msk)"
proof -
  assume valid: "valid_edges edges (length msk)"
  let ?V = "surviving_verts edges msk"
  let ?kept = "filter (keeps msk) edges"
  have fin: "finite ?V"
    by (simp add: surviving_verts_def)
  have nonneg: "\<forall>x \<in> edge_verts ?kept. 0 \<le> x"
    using valid by (auto simp: valid_edges_def list_all_iff edge_verts_def)
  have out: "fst (mask_edges edges msk) = map (renumber ?V) ?kept"
    unfolding mask_edges_filter [OF valid] surviving_verts_def
    using make_contiguous_renumber [OF nonneg] by simp
  have idx: "snd (mask_edges edges msk) = map (keeps msk) edges"
    unfolding mask_edges_filter [OF valid] by simp
  have below: "max_index_below (map (renumber ?V) ?kept) (count_true msk)"
    unfolding max_index_below_def list_all_iff
  proof
    fix e assume "e \<in> set (map (renumber ?V) ?kept)"
    then obtain a b where ab: "(a, b) \<in> set ?kept" "e = (rank_in ?V a, rank_in ?V b)"
      by (auto simp: renumber_def)
    then have "a \<in> ?V" "b \<in> ?V"
      unfolding surviving_verts_def edge_verts_def by auto
    then have "rank_in ?V a < int (card ?V)" "rank_in ?V b < int (card ?V)"
      using fin by (simp_all add: rank_in_less_card)
    moreover have "int (card ?V) \<le> int (count_true msk)"
      using card_surviving [OF valid] by simp
    ultimately show "case e of (a, b) \<Rightarrow> a < int (count_true msk) \<and> b < int (count_true msk)"
      unfolding ab(2) by simp
  qed
  show ?thesis
    using idx out rank_in_image [OF fin] rank_in_strict_mono [OF fin] below by simp
qed

theorem maskEdges_valid_indices_witness:
  "valid_edges [(0, 1), (1, 2), (0, 2), (2, 3)] (length [True, False, True, True])
   \<and> mask_edges [(0, 1), (1, 2), (0, 2), (2, 3)] [True, False, True, True]
       = ([(0, 1), (1, 2)], [False, False, True, True])
   \<and> max_index_below [(0, 1), (1, 2)] (count_true [True, False, True, True])"
proof -
  have v: "valid_edges [(0, 1), (1, 2), (0, 2), (2, 3)] (length [True, False, True, True])"
    by (simp add: valid_edges_def)
  have m: "mask_edges [(0, 1), (1, 2), (0, 2), (2, 3)] [True, False, True, True]
       = ([(0, 1), (1, 2)], [False, False, True, True])"
    by code_simp
  from maskEdges_valid_indices [OF v]
  have "max_index_below (fst (mask_edges [(0, 1), (1, 2), (0, 2), (2, 3)] [True, False, True, True]))
          (count_true [True, False, True, True])"
    by blast
  then show ?thesis
    using v m by simp
qed

subsection \<open>Unsupported meshes\<close>

text \<open>
  Claim C9. A dictionary with neither key stops with \<open>UnsupportedMeshFormat\<close>. An \<open>SLM\<close>
  object without triangles, lattice or surface does not: the error built for it is never
  raised, the dispatch goes on, and the call ends in the \<open>TypeError\<close> of the membership
  test.
\<close>

theorem extractEdges_unsupported_slm:
  "mesh_edges (SLM None None None) msk = Inl TypeError
   \<and> mesh_edges (SLM None None None) msk \<noteq> Inl UnsupportedMeshFormat
   \<and> mesh_edges (Dict None None) msk = Inl UnsupportedMeshFormat"
  by (simp add: dict_edges_def apply_mask_def)

section \<open>Properties of the model fitter\<close>

subsection \<open>Shapes\<close>

lemma has_shape_nrows: "has_shape A r c \<Longrightarrow> nrows A = r"
  by (simp add: has_shape_def nrows_def)

lemma has_shape_ncols: "has_shape A r c \<Longrightarrow> ncols A = c"
  by (cases A) (simp_all add: has_shape_def ncols_def)

lemma has_shape_row: "has_shape A r c \<Longrightarrow> i < r \<Longrightarrow> length (A ! i) = c"
  by (simp add: has_shape_def list_all_length)

lemma has_shapeI:
  "0 < r \<Longrightarrow> 0 < c \<Longrightarrow> length A = r \<Longrightarrow> (\<And>i. i < r \<Longrightarrow> length (A ! i) = c) \<Longrightarrow> has_shape A r c"
  by (simp add: has_shape_def list_all_length)

lemma has_shape_table:
  "0 < r \<Longrightarrow> 0 < c \<Longrightarrow> has_shape (map (\<lambda>i. map (g i) [0..<c]) [0..<r]) r c"
  by (rule has_shapeI) simp_all

lemma has_shape_matmul:
  assumes "has_shape A r k" "has_shape B k c"
  shows "has_shape (matmul A B) r c"
  using assms has_shape_ncols [OF assms(2)]
  by (intro has_shapeI) (simp_all add: matmul_def has_shape_def)

lemma np_dot_shape:
  assumes "has_shape A r k" "has_shape B k c"
  shows "np_dot A B = Inr (matmul A B)"
  using has_shape_ncols [OF assms(1)] has_shape_nrows [OF assms(2)] by (simp add: np_dot_def)

lemma np_dot_mismatch:
  assumes "has_shape A r k" "has_shape B k' c" "k \<noteq> k'"
  shows "np_dot A B = Inl ValueError"
  using has_shape_ncols [OF assms(1)] has_shape_nrows [OF assms(2)] assms(3) by (simp add: np_dot_def)

lemma np_binop_shape:
  assumes "has_shape A ra ca" "has_shape B rb cb" "bc_dim ra rb = Some r" "bc_dim ca cb = Some c"
  shows "\<exists>R. np_binop f A B = Inr R \<and> has_shape R r c"
proof -
  have "0 < r" "0 < c"
    using assms by (auto simp: has_shape_def bc_dim_def split: if_splits)
  then show ?thesis
    using assms has_shape_nrows [OF assms(1)] has_shape_nrows [OF assms(2)]
      has_shape_ncols [OF assms(1)] has_shape_ncols [OF assms(2)]
    by (simp add: np_binop_def has_shape_table)
qed

lemma np_binop_mismatch:
  assumes "has_shape A ra ca" "has_shape B rb cb" "bc_dim ra rb = None \<or> bc_dim ca cb = None"
  shows "np_binop f A B = Inl ValueError"
  using assms(3) has_shape_nrows [OF assms(1)] has_shape_nrows [OF assms(2)]
      has_shape_ncols [OF assms(1)] has_shape_ncols [OF assms(2)]
  by (auto simp: np_binop_def split: option.splits)

lemma bc_at_same:
  assumes "has_shape A r c" "i < r" "j < c"
  shows "bc_at A i j = A ! i ! j"
  using assms(2,3) has_shape_nrows [OF assms(1)] has_shape_ncols [OF assms(1)]
  by (auto simp: bc_at_def)

lemma table_same:
  assumes "has_shape A r c"
  shows "map (\<lambda>i. map (\<lambda>j. bc_at A i j) [0..<c]) [0..<r] = A"
proof (rule nth_equalityI)
  show "length (map (\<lambda>i. map (\<lambda>j. bc_at A i j) [0..<c]) [0..<r]) = length A"
    using assms by (simp add: has_shape_def)
next
  fix i assume "i < length (map (\<lambda>i. map (\<lambda>j. bc_at A i j) [0..<c]) [0..<r])"
  then have i: "i < r" by simp
  have "map (\<lambda>j. bc_at A i j) [0..<c] = A ! i"
    using has_shape_row [OF assms i] bc_at_same [OF assms i]
    by (intro nth_equalityI) simp_all
  then show "map (\<lambda>i. map (\<lambda>j. bc_at A i j) [0..<c]) [0..<r] ! i = A ! i"
    using i by simp
qed

lemma np_assign_same: "has_shape A r c \<Longrightarrow> np_assign r c A = Inr A"
  by (simp add: np_assign_def table_same has_shape_nrows has_shape_ncols)

lemma np_assign_mismatch:
  assumes "has_shape A ra ca" "(ra \<noteq> r \<and> ra \<noteq> 1) \<or> (ca \<noteq> c \<and> ca \<noteq> 1)"
  shows "np_assign r c A = Inl ValueError"
  using assms(2) has_shape_nrows [OF assms(1)] has_shape_ncols [OF assms(1)]
  by (auto simp: np_assign_def)

lemma np_binop_same:
  assumes "has_shape A r c" "has_shape B r c"
  shows "np_binop (-) A B = Inr (mat_sub A B)"
proof -
  have "map (\<lambda>i. map (\<lambda>j. bc_at A i j - bc_at B i j) [0..<c]) [0..<r] = mat_sub A B"
  proof (rule nth_equalityI)
    show "length (map (\<lambda>i. map (\<lambda>j. bc_at A i j - bc_at B i j) [0..<c]) [0..<r]) = length (mat_sub A B)"
      using assms by (simp add: has_shape_def mat_sub_def)
  next
    fix i assume "i < length (map (\<lambda>i. map (\<lambda>j. bc_at A i j - bc_at B i j) [0..<c]) [0..<r])"
    then have i: "i < r" by simp
    have "map (\<lambda>j. bc_at A i j - bc_at B i j) [0..<c] = map (\<lambda>(x, y). x - y) (zip (A ! i) (B ! i))"
      using has_shape_row [OF assms(1) i] has_shape_row [OF assms(2) i]
        bc_at_same [OF assms(1) i] bc_at_same [OF assms(2) i]
      by (intro nth_equalityI) simp_all
    then show "map (\<lambda>i. map (\<lambda>j. bc_at A i j - bc_at B i j) [0..<c]) [0..<r] ! i = mat_sub A B ! i"
      using i assms by (simp add: mat_sub_def has_shape_def)
  qed
  then show ?thesis
    using has_shape_nrows [OF assms(1)] has_shape_nrows [OF assms(2)]
      has_shape_ncols [OF assms(1)] has_shape_ncols [OF assms(2)]
    by (simp add: np_binop_def bc_dim_def)
qed

lemma has_shape_mat_sub:
  assumes "has_shape A r c" "has_shape B r c"
  shows "has_shape (mat_sub A B) r c"
  using assms by (intro has_shapeI) (simp_all add: has_shape_def mat_sub_def list_all_length)

lemma has_shape_ones: "0 < r \<Longrightarrow> 0 < c \<Longrightarrow> has_shape (ones r c) r c"
  by (simp add: has_shape_def ones_def list_all_length)

lemma has_shape_square: "has_shape A r c \<Longrightarrow> has_shape (square A) r c"
  by (simp add: has_shape_def square_def list_all_length)

lemma has_shape_sum_axis0:
  assumes "has_shape A r c"
  shows "has_shape [sum_axis0 A] 1 c"
  using assms has_shape_ncols [OF assms] by (simp add: has_shape_def sum_axis0_def)

lemma has_shape_scale: "has_shape A r c \<Longrightarrow> has_shape (map (map g) A) r c"
  by (simp add: has_shape_def list_all_length)

lemma bindE_simps [simp]: "bindE (Inl e) g = Inl e" "bindE (Inr x) g = g x"
  by (simp_all add: bindE_def)

lemma bc_dim_simps [simp]:
  "bc_dim a a = Some a" "bc_dim a 1 = Some a" "bc_dim 1 a = Some a"
  "bc_dim a (Suc 0) = Some a" "bc_dim (Suc 0) a = Some a"
  by (simp_all add: bc_dim_def)

lemma bc_dim_None: "a \<noteq> b \<Longrightarrow> a \<noteq> 1 \<Longrightarrow> b \<noteq> 1 \<Longrightarrow> bc_dim a b = None"
  by (simp add: bc_dim_def)

lemma intercept_check_M2:
  assumes X: "has_shape X0 m p" and P: "has_shape P p m" and n: "0 < n"
  shows "m = n \<or> m = 1 \<or> n = 1 \<Longrightarrow> \<exists>r. intercept_check n (M2 M) X0 P = Inr r"
    and "m \<noteq> n \<Longrightarrow> m \<noteq> 1 \<Longrightarrow> n \<noteq> 1 \<Longrightarrow> intercept_check n (M2 M) X0 P = Inl ValueError"
proof -
  have o1: "has_shape (ones 1 n) 1 n" and o2: "has_shape (ones n 1) n 1"
    using n by (simp_all add: has_shape_ones)
  {
    assume "m = n \<or> m = 1 \<or> n = 1"
    then have "\<exists>c. bc_dim m n = Some c"
      by (elim disjE) simp_all
    then obtain c where c: "bc_dim m n = Some c" ..
    have "bc_dim p 1 = Some p"
      by simp
    from np_binop_shape [OF P o1 this c(1), of "(*)"]
    obtain t where t: "np_binop (*) P (ones 1 n) = Inr t" "has_shape t p c"
      by blast
    have u: "np_dot X0 t = Inr (matmul X0 t)" "has_shape (matmul X0 t) m c"
      using np_dot_shape [OF X t(2)] has_shape_matmul [OF X t(2)] by simp_all
    have "\<exists>r'. bc_dim n m = Some r'"
      using \<open>m = n \<or> m = 1 \<or> n = 1\<close> by (elim disjE) simp_all
    then obtain r' where r': "bc_dim n m = Some r'" ..
    have "bc_dim 1 c = Some c"
      by simp
    from np_binop_shape [OF o2 u(2) r' this, of "(-)"]
    obtain r where "np_binop (-) (ones n 1) (matmul X0 t) = Inr r"
      by blast
    then show "\<exists>r. intercept_check n (M2 M) X0 P = Inr r"
      using t u by simp
  }
  {
    assume "m \<noteq> n" "m \<noteq> 1" "n \<noteq> 1"
    then have "np_binop (*) P (ones 1 n) = Inl ValueError"
      by (intro np_binop_mismatch [OF P o1]) (simp add: bc_dim_None)
    then show "intercept_check n (M2 M) X0 P = Inl ValueError"
      by simp
  }
qed

lemma univariate_mismatch:
  assumes Y: "has_shape Y n v" and X: "has_shape X0 m p" and P: "has_shape P p m" and "m \<noteq> n"
  shows "univariate X0 P (M2 X0) Y = Inl ValueError"
proof (cases "(nrows Y, ncols Y) = (1, 1) \<and> 1 < shape0 (M2 X0)")
  case True
  then have nv: "n = 1" "v = 1" and m: "m \<noteq> 1"
    using has_shape_nrows [OF Y] has_shape_ncols [OF Y] has_shape_nrows [OF X] by simp_all
  let ?coef = "map (map (\<lambda>x. x * Y ! 0 ! 0)) P"
  have c: "has_shape ?coef p m"
    by (rule has_shape_scale [OF P])
  have f: "np_dot X0 ?coef = Inr (matmul X0 ?coef)" "has_shape (matmul X0 ?coef) m m"
    using np_dot_shape [OF X c] has_shape_matmul [OF X c] by simp_all
  have "bc_dim n m = Some m" "bc_dim v m = Some m"
    unfolding nv by simp_all
  from np_binop_shape [OF Y f(2) this, of "(-)"]
  obtain R where R: "np_binop (-) Y (matmul X0 ?coef) = Inr R"
    by blast
  have a: "np_assign p v ?coef = Inl ValueError"
    using m nv by (intro np_assign_mismatch [OF c]) simp
  show ?thesis
    unfolding univariate_def Let_def
    apply (subst if_P [OF True])
    apply (simp add: f R a has_shape_ncols [OF X] has_shape_ncols [OF Y])
    done
next
  case False
  have "np_dot P Y = Inl ValueError"
    by (rule np_dot_mismatch [OF P Y \<open>m \<noteq> n\<close>])
  then show ?thesis
    unfolding univariate_def Let_def
    apply (subst if_not_P [OF False])
    apply simp
    done
qed

lemma returned_univariate:
  assumes "as_matrix Y = Some Ym"
  shows "returned (py_SurfStatLinMod pinv matrix_rank Y M) =
     (case intercept_check (nrows Ym) M (design_matrix (nrows Ym) M)
             (pinv (design_matrix (nrows Ym) M)) of
        Inl e \<Rightarrow> Inl e
      | Inr r \<Rightarrow>
          bindE (univariate (design_matrix (nrows Ym) M) (pinv (design_matrix (nrows Ym) M)) M Ym)
            (\<lambda>(c, s). Inr \<lparr>slm_X = design_matrix (nrows Ym) M,
                             slm_df = int (nrows Ym) - int (matrix_rank (design_matrix (nrows Ym) M)),
                             slm_coef = Coef2 c, slm_SSE = s\<rparr>))"
proof (cases Y)
  case (YNum y)
  have Ym: "Ym = [[y]]"
    using assms unfolding YNum by simp
  show ?thesis
    unfolding YNum Ym
    by (simp add: py_SurfStatLinMod_def finish_def bindE_def Let_def nrows_def
        split: sum.splits prod.splits)
next
  case (Y1 ys)
  have Ym: "Ym = [ys]"
    using assms unfolding Y1 by simp
  show ?thesis
    unfolding Y1 Ym
    by (simp add: py_SurfStatLinMod_def finish_def bindE_def Let_def nrows_def
        split: sum.splits prod.splits)
next
  case (Y2 Y2d)
  have Ym: "Ym = Y2d"
    using assms unfolding Y2 by simp
  show ?thesis
    unfolding Y2 Ym
    by (simp add: py_SurfStatLinMod_def finish_def bindE_def Let_def
        split: sum.splits prod.splits)
next
  case (Y3 Y3d)
  then show ?thesis
    using assms by simp
qed

lemma intercept_check_MNum:
  assumes X: "has_shape X0 n 1" and P: "has_shape P 1 n"
  shows "\<exists>r. intercept_check n (MNum m) X0 P = Inr r"
proof -
  have n: "0 < n"
    using X by (simp add: has_shape_def)
  have o: "has_shape (ones n 1) n 1"
    using n by (simp add: has_shape_ones)
  have "bc_dim 1 n = Some n" "bc_dim n 1 = Some n"
    by simp_all
  from np_binop_shape [OF P o this, of "(*)"]
  obtain t where t: "np_binop (*) P (ones n 1) = Inr t" "has_shape t n n"
    by blast
  have u: "np_dot t X0 = Inr (matmul t X0)" "has_shape (matmul t X0) n 1"
    using np_dot_shape [OF t(2) X] has_shape_matmul [OF t(2) X] by simp_all
  have "bc_dim n n = Some n" "bc_dim 1 1 = Some 1"
    by simp_all
  from np_binop_shape [OF o u(2) this, of "(-)"]
  obtain r where "np_binop (-) (ones n 1) (matmul t X0) = Inr r"
    by blast
  then show ?thesis
    using t u by simp
qed

lemma intercept_check_M1:
  assumes X: "has_shape X0 n p" and P: "has_shape P p n"
  shows "\<exists>r. intercept_check n (M1 ms) X0 P = Inr r"
proof -
  have n: "0 < n"
    using X by (simp add: has_shape_def)
  have o: "has_shape (ones n 1) n 1"
    using n by (simp add: has_shape_ones)
  have t: "np_dot P (ones n 1) = Inr (matmul P (ones n 1))" "has_shape (matmul P (ones n 1)) p 1"
    using np_dot_shape [OF P o] has_shape_matmul [OF P o] by simp_all
  have u: "np_dot X0 (matmul P (ones n 1)) = Inr (matmul X0 (matmul P (ones n 1)))"
    "has_shape (matmul X0 (matmul P (ones n 1))) n 1"
    using np_dot_shape [OF X t(2)] has_shape_matmul [OF X t(2)] by simp_all
  have "bc_dim n n = Some n" "bc_dim 1 1 = Some 1"
    by simp_all
  from np_binop_shape [OF o u(2) this, of "(-)"]
  obtain r where "np_binop (-) (ones n 1) (matmul X0 (matmul P (ones n 1))) = Inr r"
    by blast
  then show ?thesis
    using t u by simp
qed

lemma intercept_check_design:
  assumes X: "has_shape (design_matrix n M) n p" and P: "has_shape P p n"
  shows "\<exists>r. intercept_check n M (design_matrix n M) P = Inr r"
proof (cases M)
  case (MNum m)
  have "p = 1"
    using X unfolding MNum by (auto simp: has_shape_def list_all_iff)
  then show ?thesis
    using intercept_check_MNum [of "design_matrix n M" n P m] X P unfolding MNum by simp
next
  case (M1 ms)
  then show ?thesis
    using intercept_check_M1 [OF X P] by simp
next
  case (M2 X0)
  have n: "0 < n"
    using X by (simp add: has_shape_def)
  show ?thesis
    using intercept_check_M2(1) [OF X P n, of X0] unfolding M2 by simp
qed

lemma scale_eq_matmul:
  assumes P: "has_shape P p 1" and Y: "has_shape Y 1 1"
  shows "map (map (\<lambda>x. x * Y ! 0 ! 0)) P = matmul P Y"
proof -
  obtain y where y: "Y = [[y]]"
    using Y by (cases Y; cases "hd Y") (auto simp: has_shape_def)
  have "map (\<lambda>x. x * y) r = map (\<lambda>j. inner r (column [[y]] j)) [0..<1]" if "r \<in> set P" for r
  proof -
    have "length r = 1"
      using P that by (simp add: has_shape_def list_all_iff)
    then obtain x where "r = [x]"
      by (cases r) auto
    then show ?thesis
      by (simp add: inner_def column_def)
  qed
  then show ?thesis
    unfolding y matmul_def by (simp add: ncols_def)
qed

lemma univariate_design:
  assumes Y: "has_shape Y n v" and X: "has_shape (design_matrix n M) n p" and P: "has_shape P p n"
  shows "univariate (design_matrix n M) P M Y
           = Inr (matmul P Y,
                  [sum_axis0 (square (mat_sub Y (matmul (design_matrix n M) (matmul P Y))))])"
proof -
  let ?X = "design_matrix n M"
  have c: "has_shape (matmul P Y) p v"
    using has_shape_matmul [OF P Y] .
  have cstep: "(if (nrows Y, ncols Y) = (1, 1) \<and> 1 < shape0 M
                then Inr (map (map (\<lambda>x. x * Y ! 0 ! 0)) P) else np_dot P Y) = Inr (matmul P Y)"
  proof (cases "(nrows Y, ncols Y) = (1, 1) \<and> 1 < shape0 M")
    case True
    then have nv: "n = 1" "v = 1"
      using has_shape_nrows [OF Y] has_shape_ncols [OF Y] by simp_all
    show ?thesis
      unfolding if_P [OF True] using scale_eq_matmul [OF P [unfolded nv] Y [unfolded nv]] by simp
  next
    case False
    show ?thesis
      unfolding if_not_P [OF False] using np_dot_shape [OF P Y] by simp
  qed
  have f: "np_dot ?X (matmul P Y) = Inr (matmul ?X (matmul P Y))"
    "has_shape (matmul ?X (matmul P Y)) n v"
    using np_dot_shape [OF X c] has_shape_matmul [OF X c] by simp_all
  have r: "np_binop (-) Y (matmul ?X (matmul P Y)) = Inr (mat_sub Y (matmul ?X (matmul P Y)))"
    "has_shape (mat_sub Y (matmul ?X (matmul P Y))) n v"
    using np_binop_same [OF Y f(2)] has_shape_mat_sub [OF Y f(2)] by simp_all
  have s: "np_assign 1 v [sum_axis0 (square (mat_sub Y (matmul ?X (matmul P Y))))]
      = Inr [sum_axis0 (square (mat_sub Y (matmul ?X (matmul P Y))))]"
    by (rule np_assign_same [OF has_shape_sum_axis0 [OF has_shape_square [OF r(2)]]])
  have a: "np_assign p v (matmul P Y) = Inr (matmul P Y)"
    by (rule np_assign_same [OF c])
  show ?thesis
    unfolding univariate_def Let_def cstep
    by (simp add: f r s [simplified] a has_shape_ncols [OF X] has_shape_ncols [OF Y])
qed

lemma fit_univariate_ok:
  assumes A: "as_matrix Y = Some Ym" and Y: "has_shape Ym n v"
    and X: "has_shape (design_matrix n M) n p" and P: "has_shape (pinv (design_matrix n M)) p n"
  shows "returned (py_SurfStatLinMod pinv matrix_rank Y M)
     = Inr \<lparr>slm_X = design_matrix n M, slm_df = int n - int (matrix_rank (design_matrix n M)),
            slm_coef = Coef2 (matmul (pinv (design_matrix n M)) Ym),
            slm_SSE = [sum_axis0 (square (mat_sub Ym
                         (matmul (design_matrix n M) (matmul (pinv (design_matrix n M)) Ym))))]\<rparr>"
proof -
  have n: "nrows Ym = n"
    using Y by (simp add: has_shape_def nrows_def)
  obtain r where "intercept_check n M (design_matrix n M) (pinv (design_matrix n M)) = Inr r"
    using intercept_check_design [OF X P] by blast
  then show ?thesis
    unfolding returned_univariate [OF A] n univariate_design [OF Y X P] by simp
qed

lemma design_matrix_rows:
  assumes "has_shape (design_matrix n M) m p" "m \<noteq> n"
  shows "\<exists>X0. M = M2 X0"
  using assms by (cases M) (simp_all add: has_shape_def)

lemma fit_univariate_mismatch:
  assumes A: "as_matrix Y = Some Ym" and Y: "has_shape Ym n v"
    and X: "has_shape (design_matrix n M) m p" and P: "has_shape (pinv (design_matrix n M)) p m"
    and "m \<noteq> n"
  shows "returned (py_SurfStatLinMod pinv matrix_rank Y M) = Inl ValueError"
proof -
  obtain X0 where M: "M = M2 X0"
    using design_matrix_rows [OF X \<open>m \<noteq> n\<close>] by blast
  have X0: "has_shape X0 m p" and P0: "has_shape (pinv X0) p m"
    using X P unfolding M by simp_all
  have n: "0 < n" "nrows Ym = n"
    using Y by (simp_all add: has_shape_def nrows_def)
  show ?thesis
  proof (cases "intercept_check n (M2 X0) X0 (pinv X0)")
    case (Inl e)
    then have "\<not> (m = n \<or> m = 1 \<or> n = 1)"
      using intercept_check_M2(1) [OF X0 P0 n(1), of X0] by auto
    then have "intercept_check n (M2 X0) X0 (pinv X0) = Inl ValueError"
      using intercept_check_M2(2) [OF X0 P0 n(1)] by simp
    then show ?thesis
      unfolding returned_univariate [OF A] n(2) M by simp
  next
    case (Inr r)
    then show ?thesis
      unfolding returned_univariate [OF A] n(2) M
      using univariate_mismatch [OF Y X0 P0 \<open>m \<noteq> n\<close>] by simp
  qed
qed

subsection \<open>The univariate fit\<close>

lemma pinv_ones3:
  assumes "moore_penrose [[1], [1], [1]] P"
  shows "P = [[1 / 3, 1 / 3, 1 / 3]]"
proof -
  have "length P = 1"
    using assms by (simp add: moore_penrose_def nrows_def ncols_def)
  then obtain r where r: "P = [r]"
    by (cases P) auto
  have "length r = 3"
    using assms unfolding r by (simp add: moore_penrose_def nrows_def ncols_def)
  then obtain a b c where abc: "r = [a, b, c]"
    by (auto simp: length_Suc_conv numeral_3_eq_3)
  have sym: "mat_T (matmul [[1], [1], [1]] [[a, b, c]]) = matmul [[1], [1], [1]] [[a, b, c]]"
    and one: "matmul (matmul [[1], [1], [1]] [[a, b, c]]) [[1], [1], [1]] = [[1], [1], [1]]"
    using assms unfolding r abc by (simp_all add: moore_penrose_def)
  have u3: "[0..<3] = [0, 1, 2]" and u1: "[0..<1] = [0]"
    by code_simp+
  have m1: "matmul [[1], [1], [1]] [[a, b, c]] = [[a, b, c], [a, b, c], [a, b, c]]"
    by (simp add: matmul_def inner_def column_def ncols_def u3)
  have t1: "mat_T [[a, b, c], [a, b, c], [a, b, c]] = [[a, a, a], [b, b, b], [c, c, c]]"
    by (simp add: mat_T_def column_def ncols_def u3)
  have m2: "matmul [[a, b, c], [a, b, c], [a, b, c]] [[1], [1], [1]]
      = [[a + b + c], [a + b + c], [a + b + c]]"
    by (simp add: matmul_def inner_def column_def ncols_def u1)
  have e1: "[[a, a, a], [b, b, b], [c, c, c]] = [[a, b, c], [a, b, c], [a, b, c]]"
    using sym unfolding m1 t1 .
  have e2: "[[a + b + c], [a + b + c], [a + b + c]] = [[1], [1], [1 :: real]]"
    using one unfolding m1 m2 .
  have "a = b \<and> b = c"
    using e1 [unfolded list.inject] by blast
  moreover have "a + b + c = 1"
    using e2 [unfolded list.inject] by blast
  ultimately have "a = 1 / 3" "b = 1 / 3" "c = 1 / 3"
    by auto
  then show ?thesis
    unfolding r abc by simp
qed

text \<open>
  Claim C2, amended. For \<open>X = [[1], [1], [1]]\<close> and \<open>Y = [[2], [4], [6]]\<close>, with any
  pseudo-inverse that satisfies the Penrose equations and with rank 1, the fit returns
  \<open>coef = [[4]]\<close>, \<open>SSE = [[8]]\<close> and \<open>df = 2\<close>. In general, for a response that is a number,
  a vector or a 2-D array, read as the array of \<open>n\<close> observations and \<open>v\<close> vertices the code
  makes of it (a vector is one observation), and a design of \<open>n\<close> rows, the fit returns
  the coefficients \<open>pinv(X) Y\<close>, as \<open>SSE\<close> the column sums of the squares of the residuals
  \<open>Y - X coef\<close>, and \<open>df = n - rank(X)\<close>.
\<close>

theorem fit_univariate:
  "(moore_penrose [[1], [1], [1]] (pinv [[1], [1], [1]]) \<and> matrix_rank [[1], [1], [1]] = 1 \<longrightarrow>
      returned (py_SurfStatLinMod pinv matrix_rank (Y2 [[2], [4], [6]]) (M2 [[1], [1], [1]]))
        = Inr \<lparr>slm_X = [[1], [1], [1]], slm_df = 2, slm_coef = Coef2 [[4]], slm_SSE = [[8]]\<rparr>)
   \<and> (as_matrix Y = Some Ym \<and> has_shape Ym n v \<and> has_shape (design_matrix n M) n p
        \<and> has_shape (pinv (design_matrix n M)) p n \<longrightarrow>
      returned (py_SurfStatLinMod pinv matrix_rank Y M)
        = Inr \<lparr>slm_X = design_matrix n M,
               slm_df = int n - int (matrix_rank (design_matrix n M)),
               slm_coef = Coef2 (matmul (pinv (design_matrix n M)) Ym),
               slm_SSE = [sum_axis0 (square (mat_sub Ym
                            (matmul (design_matrix n M) (matmul (pinv (design_matrix n M)) Ym))))]\<rparr>)"
proof (intro conjI impI)
  assume "as_matrix Y = Some Ym \<and> has_shape Ym n v \<and> has_shape (design_matrix n M) n p
        \<and> has_shape (pinv (design_matrix n M)) p n"
  then show "returned (py_SurfStatLinMod pinv matrix_rank Y M)
        = Inr \<lparr>slm_X = design_matrix n M,
               slm_df = int n - int (matrix_rank (design_matrix n M)),
               slm_coef = Coef2 (matmul (pinv (design_matrix n M)) Ym),
               slm_SSE = [sum_axis0 (square (mat_sub Ym
                            (matmul (design_matrix n M) (matmul (pinv (design_matrix n M)) Ym))))]\<rparr>"
    using fit_univariate_ok by blast
next
  assume a: "moore_penrose [[1], [1], [1]] (pinv [[1], [1], [1]]) \<and> matrix_rank [[1], [1], [1]] = 1"
  then have P: "pinv [[1], [1], [1]] = [[1 / 3, 1 / 3, 1 / 3]]"
    using pinv_ones3 by blast
  have A: "as_matrix (Y2 [[2], [4], [6]]) = Some [[2], [4], [6]]"
    by simp
  have Y: "has_shape [[2], [4], [6]] 3 1" and X: "has_shape (design_matrix 3 (M2 [[1], [1], [1]])) 3 1"
    and Q: "has_shape (pinv (design_matrix 3 (M2 [[1], [1], [1]]))) 1 3"
    unfolding design_matrix.simps P by (simp_all add: has_shape_def)
  have c: "matmul [[1 / 3, 1 / 3, 1 / 3]] [[2], [4], [6]] = [[4]]"
    by code_simp
  have s: "[sum_axis0 (square (mat_sub [[2], [4], [6]] (matmul [[1], [1], [1]] [[4]])))] = [[8]]"
    by code_simp
  show "returned (py_SurfStatLinMod pinv matrix_rank (Y2 [[2], [4], [6]]) (M2 [[1], [1], [1]]))
        = Inr \<lparr>slm_X = [[1], [1], [1]], slm_df = 2, slm_coef = Coef2 [[4]], slm_SSE = [[8]]\<rparr>"
    unfolding fit_univariate_ok [where pinv = pinv and matrix_rank = matrix_rank, OF A Y X Q]
      design_matrix.simps P c s
    using a by simp
qed

theorem fit_univariate_witness:
  "moore_penrose [[1], [1], [1]] [[1 / 3, 1 / 3, 1 / 3]]
   \<and> as_matrix (Y2 [[2], [4], [6]]) = Some [[2], [4], [6]]
   \<and> has_shape [[2], [4], [6]] 3 1 \<and> has_shape (design_matrix 3 (M2 [[1], [1], [1]])) 3 1
   \<and> has_shape [[1 / 3, 1 / 3, 1 / 3]] 1 3
   \<and> returned (py_SurfStatLinMod (\<lambda>X. [[1 / 3, 1 / 3, 1 / 3]]) (\<lambda>X. 1) (Y2 [[2], [4], [6]])
        (M2 [[1], [1], [1]]))
       = Inr \<lparr>slm_X = [[1], [1], [1]], slm_df = 2, slm_coef = Coef2 [[4]], slm_SSE = [[8]]\<rparr>"
proof -
  have m: "moore_penrose [[1], [1], [1]] [[1 / 3, 1 / 3, 1 / 3]]"
    by code_simp
  have h: "as_matrix (Y2 [[2], [4], [6]]) = Some [[2], [4], [6]]"
    "has_shape [[2], [4], [6]] 3 1" "has_shape (design_matrix 3 (M2 [[1], [1], [1]])) 3 1"
    "has_shape [[1 / 3, 1 / 3, 1 / 3]] 1 3"
    by (simp_all add: has_shape_def)
  from fit_univariate [where pinv = "\<lambda>X. [[1 / 3, 1 / 3, 1 / 3]]" and matrix_rank = "\<lambda>X. 1"
      and Y = "Y2 [[2], [4], [6]]" and Ym = "[[2], [4], [6]]" and n = 3 and v = 1
      and M = "M2 [[1], [1], [1]]" and p = 1]
  have "returned (py_SurfStatLinMod (\<lambda>X. [[1 / 3, 1 / 3, 1 / 3]]) (\<lambda>X. 1) (Y2 [[2], [4], [6]])
        (M2 [[1], [1], [1]]))
       = Inr \<lparr>slm_X = [[1], [1], [1]], slm_df = 2, slm_coef = Coef2 [[4]], slm_SSE = [[8]]\<rparr>"
    using m by blast
  then show ?thesis
    using m h by blast
qed

text \<open>
  Claim C2 as stated, in general on the univariate path, fails. A vector of three values
  is fitted as one observation at three vertices: with the design 1 the coefficients are
  the values themselves and \<open>df = 1 - 1 = 0\<close>. A 3-D response with a single component is
  on the univariate path too (\<open>k = 1\<close>), and the fit stops with a \<open>ValueError\<close>.
\<close>

theorem fit_univariate_counterexample:
  "moore_penrose [[1]] [[1]]
   \<and> returned (py_SurfStatLinMod (\<lambda>X. [[1]]) (\<lambda>X. 1) (Y1 [2, 4, 6]) (MNum 1))
       = Inr \<lparr>slm_X = [[1]], slm_df = 0, slm_coef = Coef2 [[2, 4, 6]], slm_SSE = [[0, 0, 0]]\<rparr>
   \<and> moore_penrose [[1], [1], [1]] [[1 / 3, 1 / 3, 1 / 3]]
   \<and> returned (py_SurfStatLinMod (\<lambda>X. [[1 / 3, 1 / 3, 1 / 3]]) (\<lambda>X. 1)
        (Y3 [[[2]], [[4]], [[6]]]) (M2 [[1], [1], [1]])) = Inl ValueError"
  by code_simp

text \<open>
  Claim C5, amended. For a response that is a number, a vector or a 2-D array, read as
  the array of \<open>n\<close> observations the code makes of it, and a design of \<open>m\<close> rows (a number
  or a vector as design is repeated \<open>n\<close> times, so \<open>m = n\<close>): when \<open>m \<noteq> n\<close> the fit stops
  with numpy's \<open>ValueError\<close> for shapes that do not fit; when \<open>m = n\<close> it returns a result
  for every design, whatever its rank, the zero matrix included, with \<open>df = n - rank(X)\<close>
  and the coefficients \<open>pinv(X) Y\<close>.
\<close>

theorem fit_errors:
  "as_matrix Y = Some Ym \<and> has_shape Ym n v \<and> has_shape (design_matrix n M) m p
   \<and> has_shape (pinv (design_matrix n M)) p m \<longrightarrow>
     (m \<noteq> n \<longrightarrow> returned (py_SurfStatLinMod pinv matrix_rank Y M) = Inl ValueError)
   \<and> (m = n \<longrightarrow>
        returned (py_SurfStatLinMod pinv matrix_rank Y M)
          = Inr \<lparr>slm_X = design_matrix n M,
                 slm_df = int n - int (matrix_rank (design_matrix n M)),
                 slm_coef = Coef2 (matmul (pinv (design_matrix n M)) Ym),
                 slm_SSE = [sum_axis0 (square (mat_sub Ym
                            (matmul (design_matrix n M) (matmul (pinv (design_matrix n M)) Ym))))]\<rparr>)"
  using fit_univariate_mismatch fit_univariate_ok by blast

theorem fit_errors_witness:
  "as_matrix (Y2 [[1], [2], [3]]) = Some [[1], [2], [3]]
   \<and> has_shape [[1], [2], [3]] 3 1 \<and> has_shape (design_matrix 3 (M2 [[1], [1]])) 2 1
   \<and> has_shape [[1 / 2, 1 / 2]] 1 2 \<and> (2 :: nat) \<noteq> 3
   \<and> returned (py_SurfStatLinMod (\<lambda>X. [[1 / 2, 1 / 2]]) (\<lambda>X. 1) (Y2 [[1], [2], [3]]) (M2 [[1], [1]]))
       = Inl ValueError
   \<and> as_matrix (Y2 [[1], [2]]) = Some [[1], [2]]
   \<and> has_shape [[1], [2]] 2 1 \<and> has_shape (design_matrix 2 (M2 [[0], [0]])) 2 1
   \<and> has_shape [[0, 0]] 1 2
   \<and> returned (py_SurfStatLinMod (\<lambda>X. [[0, 0]]) (\<lambda>X. 0) (Y2 [[1], [2]]) (M2 [[0], [0]]))
       = Inr \<lparr>slm_X = [[0], [0]], slm_df = 2, slm_coef = Coef2 [[0]], slm_SSE = [[5]]\<rparr>"
proof -
  have h: "as_matrix (Y2 [[1], [2], [3]]) = Some [[1], [2], [3]]"
    "has_shape [[1], [2], [3]] 3 1" "has_shape (design_matrix 3 (M2 [[1], [1]])) 2 1"
    "has_shape [[1 / 2, 1 / 2]] 1 2"
    "as_matrix (Y2 [[1], [2]]) = Some [[1], [2]]"
    "has_shape [[1], [2]] 2 1" "has_shape (design_matrix 2 (M2 [[0], [0]])) 2 1"
    "has_shape [[0, 0]] 1 2"
    by (simp_all add: has_shape_def)
  from fit_errors [where pinv = "\<lambda>X. [[1 / 2, 1 / 2]]" and matrix_rank = "\<lambda>X. 1"
      and Y = "Y2 [[1], [2], [3]]" and Ym = "[[1], [2], [3]]" and n = 3 and v = 1
      and M = "M2 [[1], [1]]" and m = 2 and p = 1] h
  have 1: "returned (py_SurfStatLinMod (\<lambda>X. [[1 / 2, 1 / 2]]) (\<lambda>X. 1) (Y2 [[1], [2], [3]])
      (M2 [[1], [1]])) = Inl ValueError"
    by simp
  have c: "matmul [[0, 0]] [[1], [2]] = [[0]]"
    by code_simp
  have s: "[sum_axis0 (square (mat_sub [[1], [2]] (matmul [[0], [0]] [[0]])))] = [[5]]"
    by code_simp
  from fit_errors [where pinv = "\<lambda>X. [[0, 0]]" and matrix_rank = "\<lambda>X. 0"
      and Y = "Y2 [[1], [2]]" and Ym = "[[1], [2]]" and n = 2 and v = 1
      and M = "M2 [[0], [0]]" and m = 2 and p = 1] h
  have 2: "returned (py_SurfStatLinMod (\<lambda>X. [[0, 0]]) (\<lambda>X. 0) (Y2 [[1], [2]]) (M2 [[0], [0]]))
       = Inr \<lparr>slm_X = [[0], [0]], slm_df = 2, slm_coef = Coef2 [[0]], slm_SSE = [[5]]\<rparr>"
    unfolding design_matrix.simps c s by simp
  show ?thesis
    using 1 2 h by simp
qed

text \<open>
  Claim C5 as stated fails. A design matrix that is entirely zero is fitted like any
  other, with the zero pseudo-inverse, zero coefficients and \<open>df = n\<close>. And the fit stops
  with a \<open>ValueError\<close> although design and response have three observations each: for a
  3-D response with one component, for a 3-D response with two components at one vertex,
  and for a vector of three values, which is taken as a single observation.
\<close>

theorem fit_errors_counterexample:
  "moore_penrose [[0], [0]] [[0, 0]]
   \<and> returned (py_SurfStatLinMod (\<lambda>X. [[0, 0]]) (\<lambda>X. 0) (Y2 [[1], [2]]) (M2 [[0], [0]]))
       = Inr \<lparr>slm_X = [[0], [0]], slm_df = 2, slm_coef = Coef2 [[0]], slm_SSE = [[5]]\<rparr>
   \<and> moore_penrose [[1], [1], [1]] [[1 / 3, 1 / 3, 1 / 3]]
   \<and> returned (py_SurfStatLinMod (\<lambda>X. [[1 / 3, 1 / 3, 1 / 3]]) (\<lambda>X. 1)
        (Y3 [[[2]], [[4]], [[6]]]) (M2 [[1], [1], [1]])) = Inl ValueError
   \<and> returned (py_SurfStatLinMod (\<lambda>X. [[1 / 3, 1 / 3, 1 / 3]]) (\<lambda>X. 1)
        (Y3 [[[1, 2]], [[3, 4]], [[5, 9]]]) (M2 [[1], [1], [1]])) = Inl ValueError
   \<and> returned (py_SurfStatLinMod (\<lambda>X. [[1 / 3, 1 / 3, 1 / 3]]) (\<lambda>X. 1)
        (Y1 [2, 4, 6]) (M2 [[1], [1], [1]])) = Inl ValueError"
  by code_simp

subsection \<open>Evaluations\<close>

lemma caller_Y_finish [simp]: "caller_Y (finish X0 d w Y r) = Y"
  by (simp add: finish_def)

lemma caller_Y_univariate:
  "caller_Y (py_SurfStatLinMod pinv matrix_rank (YNum y) M) = YNum y"
  "caller_Y (py_SurfStatLinMod pinv matrix_rank (Y1 ys) M) = Y1 ys"
  "caller_Y (py_SurfStatLinMod pinv matrix_rank (Y2 Y) M) = Y2 Y"
  by (simp_all add: py_SurfStatLinMod_def Let_def split: sum.splits)

text \<open>
  Claim C1. For two observations, two vertices and two components, with the design
  \<open>[[1], [0]]\<close> and its pseudo-inverse \<open>[[1, 0]]\<close>, the residuals are the response itself.
  The rows of the packed \<open>SSE\<close> that the code returns are sums over the vertices, one
  entry per observation (\<open>axis=1\<close>): \<open>[0, 5]\<close>, \<open>[0, 11]\<close>, \<open>[0, 25]\<close>. The inner products
  across the observations, one entry per vertex, are \<open>[1, 4]\<close>, \<open>[3, 8]\<close>, \<open>[9, 16]\<close>. With
  three observations and one vertex the assignment of the row fails with a \<open>ValueError\<close>.
\<close>

theorem fit_multivariate_SSE_axis:
  "moore_penrose [[1], [0]] [[1, 0]]
   \<and> returned (py_SurfStatLinMod (\<lambda>X. [[1, 0]]) (\<lambda>X. 1)
        (Y3 [[[0, 0], [0, 0]], [[1, 3], [2, 4]]]) (M2 [[1], [0]]))
       = Inr \<lparr>slm_X = [[1], [0]], slm_df = 1, slm_coef = Coef3 [[[0, 0], [0, 0]]],
              slm_SSE = [[0, 5], [0, 11], [0, 25]]\<rparr>
   \<and> caller_Y (py_SurfStatLinMod (\<lambda>X. [[1, 0]]) (\<lambda>X. 1)
        (Y3 [[[0, 0], [0, 0]], [[1, 3], [2, 4]]]) (M2 [[1], [0]]))
       = Y3 [[[0, 0], [0, 0]], [[1, 3], [2, 4]]]
   \<and> spec_packed_SSE [[[0, 0], [0, 0]], [[1, 3], [2, 4]]] 2 = [[1, 4], [3, 8], [9, 16]]
   \<and> returned (py_SurfStatLinMod (\<lambda>X. [[1 / 3, 1 / 3, 1 / 3]]) (\<lambda>X. 1)
        (Y3 [[[1, 2]], [[3, 4]], [[5, 9]]]) (M2 [[1], [1], [1]])) = Inl ValueError"
  by code_simp

text \<open>
  Claim C3. On the multivariate path the array passed as \<open>Y\<close> holds the residuals after
  the call: for one observation, one vertex, two components and the design \<open>[[1]]\<close> the
  caller's \<open>[[[1, 2]]]\<close> has become \<open>[[[0, 0]]]\<close>. On the univariate path the caller's
  array is not written.
\<close>

theorem fit_multivariate_overwrites_Y:
  "moore_penrose [[1]] [[1]]
   \<and> caller_Y (py_SurfStatLinMod (\<lambda>X. [[1]]) (\<lambda>X. 1) (Y3 [[[1, 2]]]) (M2 [[1]])) = Y3 [[[0, 0]]]
   \<and> returned (py_SurfStatLinMod (\<lambda>X. [[1]]) (\<lambda>X. 1) (Y3 [[[1, 2]]]) (M2 [[1]]))
       = Inr \<lparr>slm_X = [[1]], slm_df = 0, slm_coef = Coef3 [[[1, 2]]], slm_SSE = [[0], [0], [0]]\<rparr>
   \<and> caller_Y (py_SurfStatLinMod pinv matrix_rank (Y2 Y) M) = Y2 Y"
proof -
  have "moore_penrose [[1]] [[1]]
   \<and> caller_Y (py_SurfStatLinMod (\<lambda>X. [[1]]) (\<lambda>X. 1) (Y3 [[[1, 2]]]) (M2 [[1]])) = Y3 [[[0, 0]]]
   \<and> returned (py_SurfStatLinMod (\<lambda>X. [[1]]) (\<lambda>X. 1) (Y3 [[[1, 2]]]) (M2 [[1]]))
       = Inr \<lparr>slm_X = [[1]], slm_df = 0, slm_coef = Coef3 [[[1, 2]]], slm_SSE = [[0], [0], [0]]\<rparr>"
    by code_simp
  then show ?thesis
    using caller_Y_univariate(3) by blast
qed

text \<open>
  Claim C4. For the 2-D design \<open>[[1], [1], [1]]\<close>, a constant column, the quantity
  \<open>(I - X pinv(X)) 1\<close> is 0, yet the fit prints the warning: line 47 multiplies the
  pseudo-inverse elementwise by a vector of ones, so \<open>r\<close> is \<open>1 - X pinv(X)\<close> entry by
  entry. The same design given as the vector \<open>[1]\<close> (line 43) does not warn.
\<close>

theorem fit_intercept_warning:
  "moore_penrose [[1], [1], [1]] [[1 / 3, 1 / 3, 1 / 3]]
   \<and> mean (square (spec_intercept_residual [[1], [1], [1]] [[1 / 3, 1 / 3, 1 / 3]])) = 0
   \<and> py_SurfStatLinMod (\<lambda>X. [[1 / 3, 1 / 3, 1 / 3]]) (\<lambda>X. 1) (Y2 [[2], [4], [6]]) (M2 [[1], [1], [1]])
       = \<lparr>returned = Inr \<lparr>slm_X = [[1], [1], [1]], slm_df = 2, slm_coef = Coef2 [[4]], slm_SSE = [[8]]\<rparr>,
          warned = True, caller_Y = Y2 [[2], [4], [6]]\<rparr>
   \<and> warned (py_SurfStatLinMod (\<lambda>X. [[1 / 3, 1 / 3, 1 / 3]]) (\<lambda>X. 1) (Y2 [[2], [4], [6]]) (M1 [1]))
       = False"
  by code_simp


end
